theory Spec2Isabelle
  imports Main "HOL-Library.Multiset"
begin

section \<open>Python values used by the sparsity server\<close>

text \<open>
  The model follows \<^verbatim>\<open>apps/sparsity/server.py\<close>. Indices are Python integers
  (\<open>int\<close>), so negative arguments are inputs like any other. A weight is a value of
  any linearly ordered type that has \<open>0\<close>, \<open>abs\<close> and a product: the functions below
  only compare weights with \<open>0\<close>, compare their magnitudes, and multiply two
  magnitudes to obtain a sort key. Integers, rationals and reals are instances.
  The weights of the program are floating-point numbers; the model covers them as long
  as no weight is a NaN, since then \<^verbatim>\<open>abs\<close> and the comparisons of the sort are those of a
  linear order, whatever the rounding of the product is.

  An exception is a value: \<open>IndexError\<close> is what Python and torch raise for an index
  outside \<open>[-n, n)\<close>, \<open>HTTPException status detail\<close> is what the two routes raise,
  \<open>RecursionError\<close> is what the interpreter raises when calls nest deeper than its
  recursion limit (only the depth-limited tracers below can return it).
\<close>

datatype error = IndexError | HTTPException nat string | RecursionError

definition bind_result :: "error + 'a \<Rightarrow> ('a \<Rightarrow> error + 'b) \<Rightarrow> error + 'b" where
  "bind_result r f = (case r of Inl e \<Rightarrow> Inl e | Inr x \<Rightarrow> f x)"

text \<open>A \<^verbatim>\<open>for\<close> loop that appends one value per element and stops at the first exception.\<close>

primrec map_result :: "('a \<Rightarrow> error + 'b) \<Rightarrow> 'a list \<Rightarrow> error + 'b list" where
  "map_result f [] = Inr []"
| "map_result f (x # xs) =
     bind_result (f x) (\<lambda>y. bind_result (map_result f xs) (\<lambda>ys. Inr (y # ys)))"

text \<open>A \<^verbatim>\<open>for\<close> loop whose body appends several values per element.\<close>

definition concat_map_result :: "('a \<Rightarrow> error + 'b list) \<Rightarrow> 'a list \<Rightarrow> error + 'b list" where
  "concat_map_result f xs = bind_result (map_result f xs) (\<lambda>yss. Inr (concat yss))"

text \<open>
  Indexing a sequence of length \<open>n\<close> with \<open>i\<close>: indices \<open>-n \<le> i < 0\<close> count from the
  end, anything outside \<open>[-n, n)\<close> raises.
\<close>

definition norm_index :: "nat \<Rightarrow> int \<Rightarrow> error + nat" where
  "norm_index n i =
     (if - int n \<le> i \<and> i < int n
      then Inr (if i < 0 then nat (i + int n) else nat i)
      else Inl IndexError)"

definition getitem :: "'a list \<Rightarrow> int \<Rightarrow> error + 'a" where
  "getitem xs i = bind_result (norm_index (length xs) i) (\<lambda>j. Inr (xs ! j))"

text \<open>
  The slice \<^verbatim>\<open>xs[:k]\<close>: the first \<open>k\<close> elements when \<open>k \<ge> 0\<close>; for a negative \<open>k\<close>
  everything but the last \<open>-k\<close> elements.
\<close>

definition slice_to :: "int \<Rightarrow> 'a list \<Rightarrow> 'a list" where
  "slice_to k xs = (if 0 \<le> k then take (nat k) xs else take (nat (int (length xs) + k)) xs)"

text \<open>
  \<^verbatim>\<open>sorted(xs, key=f, reverse=True)\<close> and \<^verbatim>\<open>xs.sort(key=f, reverse=True)\<close>: a stable
  sort into descending key order (elements with equal keys keep their original
  order).
\<close>

primrec insort_desc :: "('a \<Rightarrow> 'k::linorder) \<Rightarrow> 'a \<Rightarrow> 'a list \<Rightarrow> 'a list" where
  "insort_desc f x [] = [x]"
| "insort_desc f x (y # ys) = (if f y \<le> f x then x # y # ys else y # insort_desc f x ys)"

definition sort_desc :: "('a \<Rightarrow> 'k::linorder) \<Rightarrow> 'a list \<Rightarrow> 'a list" where
  "sort_desc f xs = foldr (insort_desc f) xs []"

text \<open>
  The order a stable descending sort by \<open>f\<close> produces from a list whose elements stand
  in increasing order of \<open>g\<close>: larger key first, and among equal keys smaller \<open>g\<close> first.
\<close>

definition ranked :: "('a \<Rightarrow> 'k::linorder) \<Rightarrow> ('a \<Rightarrow> int) \<Rightarrow> 'a \<Rightarrow> 'a \<Rightarrow> bool" where
  "ranked f g a b \<longleftrightarrow> f b < f a \<or> (f a = f b \<and> g a < g b)"

section \<open>The model object\<close>

text \<open>
  A two-dimensional weight tensor is its shape and its entries. A layer holds the two
  MLP matrices: \<open>c_fc\<close> of shape \<open>[mlpSize, dModel]\<close> and \<open>c_proj\<close> of shape
  \<open>[dModel, mlpSize]\<close>. The loaded model is the list of layers
  \<^verbatim>\<open>model.circuit_model.transformer["h"]\<close>.
\<close>

record 'w tensor =
  shape0 :: nat
  shape1 :: nat
  at :: "nat \<Rightarrow> nat \<Rightarrow> 'w"

record 'w mlp =
  c_fc :: "'w tensor"
  c_proj :: "'w tensor"

type_synonym 'w layers = "'w mlp list"

text \<open>\<^verbatim>\<open>weight[i, :].tolist()\<close> and \<^verbatim>\<open>weight[:, j].tolist()\<close>.\<close>

definition select_row :: "'w tensor \<Rightarrow> int \<Rightarrow> error + 'w list" where
  "select_row T i =
     bind_result (norm_index (shape0 T) i) (\<lambda>r. Inr (map (\<lambda>c. at T r c) [0..<shape1 T]))"

definition select_col :: "'w tensor \<Rightarrow> int \<Rightarrow> error + 'w list" where
  "select_col T j =
     bind_result (norm_index (shape1 T) j) (\<lambda>c. Inr (map (\<lambda>r. at T r c) [0..<shape0 T]))"

text \<open>
  The shapes the external loader guarantees: in every layer \<open>c_fc\<close> is
  \<open>[mlpSize, dModel]\<close> and \<open>c_proj\<close> is \<open>[dModel, mlpSize]\<close>, with \<open>dModel\<close> the same in
  all layers.
\<close>

definition wf_layer :: "nat \<Rightarrow> 'w mlp \<Rightarrow> bool" where
  "wf_layer d L \<longleftrightarrow>
     shape1 (c_fc L) = d \<and> shape0 (c_proj L) = d \<and> shape1 (c_proj L) = shape0 (c_fc L)"

definition d_model :: "'w layers \<Rightarrow> nat" where
  "d_model m = (case m of [] \<Rightarrow> 0 | L # _ \<Rightarrow> shape0 (c_proj L))"

definition wf_model :: "'w layers \<Rightarrow> bool" where
  "wf_model m \<longleftrightarrow> list_all (wf_layer (d_model m)) m"

section \<open>Connection extractor\<close>

datatype 'w channel_entry = ChannelEntry (channel_id: int) (ch_weight: 'w)

datatype 'w neuron_entry = NeuronEntry (neuron_id: int) (weight: 'w)

record 'w connections =
  conn_in :: "'w channel_entry list"
  conn_out :: "'w channel_entry list"

text \<open>\<^verbatim>\<open>[{"channel_id": i, "weight": w} for i, w in enumerate(ws) if w != 0]\<close>\<close>

definition nonzero_channels :: "'w::zero list \<Rightarrow> 'w channel_entry list" where
  "nonzero_channels ws =
     map (\<lambda>(i, w). ChannelEntry (int i) w) (filter (\<lambda>(i, w). w \<noteq> 0) (enumerate 0 ws))"

definition nonzero_neurons :: "'w::zero list \<Rightarrow> 'w neuron_entry list" where
  "nonzero_neurons ws =
     map (\<lambda>(i, w). NeuronEntry (int i) w) (filter (\<lambda>(i, w). w \<noteq> 0) (enumerate 0 ws))"

definition neuron_get_connected_reschannels ::
  "'w::zero layers \<Rightarrow> int \<Rightarrow> int \<Rightarrow> error + 'w connections" where
  "neuron_get_connected_reschannels m layer_idx neuron_idx =
     bind_result (getitem m layer_idx) (\<lambda>L.
     bind_result (select_row (c_fc L) neuron_idx) (\<lambda>c_fc_weights.
     bind_result (select_col (c_proj L) neuron_idx) (\<lambda>c_proj_weights.
     Inr \<lparr>conn_in = nonzero_channels c_fc_weights,
          conn_out = nonzero_channels c_proj_weights\<rparr>)))"

definition find_neurons_reading_channel ::
  "'w::{zero,abs,linorder} layers \<Rightarrow> int \<Rightarrow> int \<Rightarrow> int \<Rightarrow> error + 'w neuron_entry list" where
  "find_neurons_reading_channel m layer_idx channel top_k =
     bind_result (getitem m layer_idx) (\<lambda>L.
     bind_result (select_col (c_fc L) channel) (\<lambda>c_fc_weights.
     Inr (slice_to top_k (sort_desc (\<lambda>x. \<bar>weight x\<bar>) (nonzero_neurons c_fc_weights)))))"

definition find_neurons_writing_channel ::
  "'w::{zero,abs,linorder} layers \<Rightarrow> int \<Rightarrow> int \<Rightarrow> int \<Rightarrow> error + 'w neuron_entry list" where
  "find_neurons_writing_channel m layer_idx channel top_k =
     bind_result (getitem m layer_idx) (\<lambda>L.
     bind_result (select_row (c_proj L) channel) (\<lambda>c_proj_weights.
     Inr (slice_to top_k (sort_desc (\<lambda>x. \<bar>weight x\<bar>) (nonzero_neurons c_proj_weights)))))"

section \<open>Circuit tracer\<close>

datatype 'w fwd_node =
  FwdNode (fwd_layer: int) (fwd_neuron: int) (fwd_read_weight: 'w) (fwd_via_channel: int)
    (fwd_write_weight: 'w) (children: "'w fwd_node list option")

datatype 'w bwd_node =
  BwdNode (bwd_layer: int) (bwd_neuron: int) (bwd_write_weight: 'w) (bwd_via_channel: int)
    (bwd_read_weight: 'w) (parents: "'w bwd_node list option")

definition fwd_score :: "'w::{abs,times} fwd_node \<Rightarrow> 'w" where
  "fwd_score x = \<bar>fwd_write_weight x\<bar> * \<bar>fwd_read_weight x\<bar>"

definition bwd_score :: "'w::{abs,times} bwd_node \<Rightarrow> 'w" where
  "bwd_score x = \<bar>bwd_write_weight x\<bar> * \<bar>bwd_read_weight x\<bar>"

lemma bind_result_cong [fundef_cong]:
  "r = r' \<Longrightarrow> (\<And>x. r' = Inr x \<Longrightarrow> f x = g x) \<Longrightarrow> bind_result r f = bind_result r' g"
  by (auto simp: bind_result_def split: sum.splits)

lemma map_result_cong [fundef_cong]:
  "xs = ys \<Longrightarrow> (\<And>x. x \<in> set ys \<Longrightarrow> f x = g x) \<Longrightarrow> map_result f xs = map_result g ys"
  by (induction ys arbitrary: xs) (auto cong: bind_result_cong)

lemma concat_map_result_cong [fundef_cong]:
  "xs = ys \<Longrightarrow> (\<And>x. x \<in> set ys \<Longrightarrow> f x = g x) \<Longrightarrow>
   concat_map_result f xs = concat_map_result g ys"
  unfolding concat_map_result_def by (auto cong: map_result_cong)

text \<open>
  \<^verbatim>\<open>trace_from_neuron\<close> of \<^verbatim>\<open>trace_circuit_forward\<close>. The enclosing call fixes the
  layers and \<open>top_k\<close>; \<open>num_layers\<close> is \<open>length m\<close>. \<^verbatim>\<open>range(layer + 1, num_layers)\<close> is
  \<open>[layer + 1 .. num_layers - 1]\<close>.
\<close>

function trace_from_neuron_fwd ::
  "'w::{zero,abs,times,linorder} layers \<Rightarrow> int \<Rightarrow> int \<Rightarrow> int \<Rightarrow> int \<Rightarrow>
   error + 'w fwd_node list option" where
  "trace_from_neuron_fwd m top_k layer neuron remaining_depth =
     (if remaining_depth = 0 \<or> layer \<ge> int (length m) - 1 then Inr None
      else
        bind_result (neuron_get_connected_reschannels m layer neuron) (\<lambda>connections.
        let out_channels =
              slice_to top_k (sort_desc (\<lambda>x. \<bar>ch_weight x\<bar>) (conn_out connections)) in
        bind_result
          (concat_map_result (\<lambda>ch.
             concat_map_result (\<lambda>next_layer.
               bind_result
                 (find_neurons_reading_channel m next_layer (channel_id ch) top_k)
                 (map_result (\<lambda>reader.
                    bind_result
                      (trace_from_neuron_fwd m top_k next_layer (neuron_id reader)
                         (remaining_depth - 1))
                      (\<lambda>kids. Inr (FwdNode next_layer (neuron_id reader) (weight reader)
                                      (channel_id ch) (ch_weight ch) kids)))))
               [layer + 1 .. int (length m) - 1])
             out_channels)
          (\<lambda>result.
             Inr (if result \<noteq> []
                  then Some (slice_to (top_k * 2) (sort_desc fwd_score result))
                  else None))))"
  by pat_completeness auto
termination
  by (relation "measure (\<lambda>(m, top_k, layer, neuron, d). nat (int (length m) - layer))") auto

text \<open>\<^verbatim>\<open>x or []\<close>: \<open>None\<close> and the empty list both become the empty list.\<close>

definition or_empty :: "'a list option \<Rightarrow> 'a list" where
  "or_empty r = (case r of None \<Rightarrow> [] | Some xs \<Rightarrow> (if xs \<noteq> [] then xs else []))"

definition trace_circuit_forward ::
  "'w::{zero,abs,times,linorder} layers \<Rightarrow> int \<Rightarrow> int \<Rightarrow> int \<Rightarrow> int \<Rightarrow>
   error + 'w fwd_node list" where
  "trace_circuit_forward m start_layer start_neuron depth top_k =
     bind_result (trace_from_neuron_fwd m top_k start_layer start_neuron depth)
       (\<lambda>r. Inr (or_empty r))"

text \<open>
  \<^verbatim>\<open>trace_from_neuron\<close> of \<^verbatim>\<open>trace_circuit_backward\<close>. \<^verbatim>\<open>range(layer - 1, -1, -1)\<close> is
  \<open>rev [0 .. layer - 1]\<close>.
\<close>

function trace_from_neuron_bwd ::
  "'w::{zero,abs,times,linorder} layers \<Rightarrow> int \<Rightarrow> int \<Rightarrow> int \<Rightarrow> int \<Rightarrow>
   error + 'w bwd_node list option" where
  "trace_from_neuron_bwd m top_k layer neuron remaining_depth =
     (if remaining_depth = 0 \<or> layer \<le> 0 then Inr None
      else
        bind_result (neuron_get_connected_reschannels m layer neuron) (\<lambda>connections.
        let in_channels =
              slice_to top_k (sort_desc (\<lambda>x. \<bar>ch_weight x\<bar>) (conn_in connections)) in
        bind_result
          (concat_map_result (\<lambda>ch.
             concat_map_result (\<lambda>prev_layer.
               bind_result
                 (find_neurons_writing_channel m prev_layer (channel_id ch) top_k)
                 (map_result (\<lambda>writer.
                    bind_result
                      (trace_from_neuron_bwd m top_k prev_layer (neuron_id writer)
                         (remaining_depth - 1))
                      (\<lambda>kids. Inr (BwdNode prev_layer (neuron_id writer) (weight writer)
                                      (channel_id ch) (ch_weight ch) kids)))))
               (rev [0 .. layer - 1]))
             in_channels)
          (\<lambda>result.
             Inr (if result \<noteq> []
                  then Some (slice_to (top_k * 2) (sort_desc bwd_score result))
                  else None))))"
  by pat_completeness auto
termination
  by (relation "measure (\<lambda>(m, top_k, layer, neuron, d). nat layer)") auto

definition trace_circuit_backward ::
  "'w::{zero,abs,times,linorder} layers \<Rightarrow> int \<Rightarrow> int \<Rightarrow> int \<Rightarrow> int \<Rightarrow>
   error + 'w bwd_node list" where
  "trace_circuit_backward m start_layer start_neuron depth top_k =
     bind_result (trace_from_neuron_bwd m top_k start_layer start_neuron depth)
       (\<lambda>r. Inr (or_empty r))"

subsection \<open>The two phases of one expansion\<close>

text \<open>
  The candidate list of a node that is not terminal, as \<^verbatim>\<open>result\<close> holds it when the
  loops are over and before it is sorted (the body of \<^verbatim>\<open>trace_from_neuron\<close> up to the
  \<^verbatim>\<open>result.sort\<close> call).
\<close>

definition fwd_candidates ::
  "'w::{zero,abs,times,linorder} layers \<Rightarrow> int \<Rightarrow> int \<Rightarrow> int \<Rightarrow> int \<Rightarrow>
   error + 'w fwd_node list" where
  "fwd_candidates m top_k layer neuron remaining_depth =
     bind_result (neuron_get_connected_reschannels m layer neuron) (\<lambda>connections.
     let out_channels =
           slice_to top_k (sort_desc (\<lambda>x. \<bar>ch_weight x\<bar>) (conn_out connections)) in
     concat_map_result (\<lambda>ch.
       concat_map_result (\<lambda>next_layer.
         bind_result
           (find_neurons_reading_channel m next_layer (channel_id ch) top_k)
           (map_result (\<lambda>reader.
              bind_result
                (trace_from_neuron_fwd m top_k next_layer (neuron_id reader)
                   (remaining_depth - 1))
                (\<lambda>kids. Inr (FwdNode next_layer (neuron_id reader) (weight reader)
                                (channel_id ch) (ch_weight ch) kids)))))
         [layer + 1 .. int (length m) - 1])
       out_channels)"

definition bwd_candidates ::
  "'w::{zero,abs,times,linorder} layers \<Rightarrow> int \<Rightarrow> int \<Rightarrow> int \<Rightarrow> int \<Rightarrow>
   error + 'w bwd_node list" where
  "bwd_candidates m top_k layer neuron remaining_depth =
     bind_result (neuron_get_connected_reschannels m layer neuron) (\<lambda>connections.
     let in_channels =
           slice_to top_k (sort_desc (\<lambda>x. \<bar>ch_weight x\<bar>) (conn_in connections)) in
     concat_map_result (\<lambda>ch.
       concat_map_result (\<lambda>prev_layer.
         bind_result
           (find_neurons_writing_channel m prev_layer (channel_id ch) top_k)
           (map_result (\<lambda>writer.
              bind_result
                (trace_from_neuron_bwd m top_k prev_layer (neuron_id writer)
                   (remaining_depth - 1))
                (\<lambda>kids. Inr (BwdNode prev_layer (neuron_id writer) (weight writer)
                                (channel_id ch) (ch_weight ch) kids)))))
         (rev [0 .. layer - 1]))
       in_channels)"

text \<open>The last two statements of \<^verbatim>\<open>trace_from_neuron\<close>: sort, cut, and \<open>None\<close> for no candidates.\<close>

definition rerank :: "('a \<Rightarrow> 'k::linorder) \<Rightarrow> int \<Rightarrow> 'a list \<Rightarrow> 'a list option" where
  "rerank score top_k result =
     (if result \<noteq> [] then Some (slice_to (top_k * 2) (sort_desc score result)) else None)"

subsection \<open>Tracing under a recursion limit\<close>

text \<open>
  The same functions with the nesting of calls counted: \<open>fuel\<close> is the number of nested
  \<^verbatim>\<open>trace_from_neuron\<close> frames still allowed, and a call with none left raises
  \<open>RecursionError\<close>.
\<close>

fun trace_from_neuron_fwd_limited ::
  "nat \<Rightarrow> 'w::{zero,abs,times,linorder} layers \<Rightarrow> int \<Rightarrow> int \<Rightarrow> int \<Rightarrow> int \<Rightarrow>
   error + 'w fwd_node list option" where
  "trace_from_neuron_fwd_limited 0 m top_k layer neuron remaining_depth = Inl RecursionError"
| "trace_from_neuron_fwd_limited (Suc fuel) m top_k layer neuron remaining_depth =
     (if remaining_depth = 0 \<or> layer \<ge> int (length m) - 1 then Inr None
      else
        bind_result (neuron_get_connected_reschannels m layer neuron) (\<lambda>connections.
        let out_channels =
              slice_to top_k (sort_desc (\<lambda>x. \<bar>ch_weight x\<bar>) (conn_out connections)) in
        bind_result
          (concat_map_result (\<lambda>ch.
             concat_map_result (\<lambda>next_layer.
               bind_result
                 (find_neurons_reading_channel m next_layer (channel_id ch) top_k)
                 (map_result (\<lambda>reader.
                    bind_result
                      (trace_from_neuron_fwd_limited fuel m top_k next_layer (neuron_id reader)
                         (remaining_depth - 1))
                      (\<lambda>kids. Inr (FwdNode next_layer (neuron_id reader) (weight reader)
                                      (channel_id ch) (ch_weight ch) kids)))))
               [layer + 1 .. int (length m) - 1])
             out_channels)
          (\<lambda>result.
             Inr (if result \<noteq> []
                  then Some (slice_to (top_k * 2) (sort_desc fwd_score result))
                  else None))))"

fun trace_from_neuron_bwd_limited ::
  "nat \<Rightarrow> 'w::{zero,abs,times,linorder} layers \<Rightarrow> int \<Rightarrow> int \<Rightarrow> int \<Rightarrow> int \<Rightarrow>
   error + 'w bwd_node list option" where
  "trace_from_neuron_bwd_limited 0 m top_k layer neuron remaining_depth = Inl RecursionError"
| "trace_from_neuron_bwd_limited (Suc fuel) m top_k layer neuron remaining_depth =
     (if remaining_depth = 0 \<or> layer \<le> 0 then Inr None
      else
        bind_result (neuron_get_connected_reschannels m layer neuron) (\<lambda>connections.
        let in_channels =
              slice_to top_k (sort_desc (\<lambda>x. \<bar>ch_weight x\<bar>) (conn_in connections)) in
        bind_result
          (concat_map_result (\<lambda>ch.
             concat_map_result (\<lambda>prev_layer.
               bind_result
                 (find_neurons_writing_channel m prev_layer (channel_id ch) top_k)
                 (map_result (\<lambda>writer.
                    bind_result
                      (trace_from_neuron_bwd_limited fuel m top_k prev_layer (neuron_id writer)
                         (remaining_depth - 1))
                      (\<lambda>kids. Inr (BwdNode prev_layer (neuron_id writer) (weight writer)
                                      (channel_id ch) (ch_weight ch) kids)))))
               (rev [0 .. layer - 1]))
             in_channels)
          (\<lambda>result.
             Inr (if result \<noteq> []
                  then Some (slice_to (top_k * 2) (sort_desc bwd_score result))
                  else None))))"

section \<open>Query service\<close>

text \<open>The decimal text an f-string gives an integer.\<close>

function str_nat :: "nat \<Rightarrow> string" where
  "str_nat n =
     (if n < 10 then [''0123456789'' ! n]
      else str_nat (n div 10) @ [''0123456789'' ! (n mod 10)])"
  by pat_completeness auto
termination
  by (relation "measure (\<lambda>n. n)") auto

definition str_int :: "int \<Rightarrow> string" where
  "str_int i = (if i < 0 then CHR ''-'' # str_nat (nat (- i)) else str_nat (nat i))"

record 'w neuron_response =
  nr_layer :: int
  nr_neuron :: int
  trace_forward :: "'w fwd_node list"
  trace_backward :: "'w bwd_node list"

definition get_neuron_connections ::
  "'w::{zero,abs,times,linorder} layers \<Rightarrow> int \<Rightarrow> int \<Rightarrow> int \<Rightarrow> int \<Rightarrow>
   error + 'w neuron_response" where
  "get_neuron_connections m layer neuron trace_depth trace_k =
     (let num_layers = int (length m) in
      if layer < 0 \<or> layer \<ge> num_layers
      then Inl (HTTPException 400 (''Layer must be between 0 and '' @ str_int (num_layers - 1)))
      else
        let mlp_size = int (shape0 (c_fc (m ! nat layer))) in
        if neuron < 0 \<or> neuron \<ge> mlp_size
        then Inl (HTTPException 400
                    (''Neuron index must be between 0 and '' @ str_int (mlp_size - 1)))
        else
          bind_result (trace_circuit_forward m layer neuron trace_depth trace_k) (\<lambda>fwd.
          bind_result (trace_circuit_backward m layer neuron trace_depth trace_k) (\<lambda>bwd.
          Inr \<lparr>nr_layer = layer, nr_neuron = neuron,
               trace_forward = fwd, trace_backward = bwd\<rparr>)))"

record 'w channel_response =
  cr_channel_id :: int
  readers_by_layer :: "int \<rightharpoonup> 'w neuron_entry list"
  writers_by_layer :: "int \<rightharpoonup> 'w neuron_entry list"

text \<open>
  The loop of \<^verbatim>\<open>get_channel_connections\<close> over \<^verbatim>\<open>range(num_layers)\<close>, passing the two
  dictionaries along.
\<close>

fun channel_loop ::
  "'w::{zero,abs,linorder} layers \<Rightarrow> int \<Rightarrow> int \<Rightarrow> int list \<Rightarrow>
   (int \<rightharpoonup> 'w neuron_entry list) \<times> (int \<rightharpoonup> 'w neuron_entry list) \<Rightarrow>
   error + (int \<rightharpoonup> 'w neuron_entry list) \<times> (int \<rightharpoonup> 'w neuron_entry list)" where
  "channel_loop m channel top_k [] acc = Inr acc"
| "channel_loop m channel top_k (layer_idx # rest) (readers_by, writers_by) =
     bind_result (find_neurons_reading_channel m layer_idx channel top_k) (\<lambda>readers.
     bind_result (find_neurons_writing_channel m layer_idx channel top_k) (\<lambda>writers.
     channel_loop m channel top_k rest
       (if readers \<noteq> [] then readers_by(layer_idx \<mapsto> readers) else readers_by,
        if writers \<noteq> [] then writers_by(layer_idx \<mapsto> writers) else writers_by)))"

definition get_channel_connections ::
  "'w::{zero,abs,linorder} layers \<Rightarrow> int \<Rightarrow> int \<Rightarrow> error + 'w channel_response" where
  "get_channel_connections m channel top_k =
     bind_result (getitem m 0) (\<lambda>L0.
     let dm = int (shape0 (c_proj L0)) in
     if channel < 0 \<or> channel \<ge> dm
     then Inl (HTTPException 400 (''Channel must be between 0 and '' @ str_int (dm - 1)))
     else
       bind_result
         (channel_loop m channel top_k [0 .. int (length m) - 1] (Map.empty, Map.empty))
         (\<lambda>(readers_by, writers_by).
            Inr \<lparr>cr_channel_id = channel, readers_by_layer = readers_by,
                 writers_by_layer = writers_by\<rparr>))"

section \<open>Reference notions for the statements\<close>

text \<open>
  Column \<open>c\<close> of the in-matrix and row \<open>c\<close> of the out-matrix of layer \<open>l\<close>, and the
  complete ranking of the nonzero entries of such a vector, before any cut.
\<close>

definition fc_column :: "'w layers \<Rightarrow> nat \<Rightarrow> nat \<Rightarrow> 'w list" where
  "fc_column m l c = map (\<lambda>r. at (c_fc (m ! l)) r c) [0..<shape0 (c_fc (m ! l))]"

definition proj_row :: "'w layers \<Rightarrow> nat \<Rightarrow> nat \<Rightarrow> 'w list" where
  "proj_row m l c = map (\<lambda>n. at (c_proj (m ! l)) c n) [0..<shape1 (c_proj (m ! l))]"

definition ranked_neurons :: "'w::{zero,abs,linorder} list \<Rightarrow> 'w neuron_entry list" where
  "ranked_neurons ws = sort_desc (\<lambda>x. \<bar>weight x\<bar>) (nonzero_neurons ws)"

text \<open>What a ranked, cut list of channel neighbours looks like.\<close>

definition top_ranked :: "int \<Rightarrow> 'w::{zero,abs,linorder} neuron_entry list \<Rightarrow> bool" where
  "top_ranked top_k rs \<longleftrightarrow>
     sorted_wrt (\<lambda>a b. \<bar>weight b\<bar> \<le> \<bar>weight a\<bar>) rs \<and>
     int (length rs) \<le> top_k \<and>
     (\<forall>r\<in>set rs. weight r \<noteq> 0) \<and>
     sorted_wrt (ranked (\<lambda>x. \<bar>weight x\<bar>) neuron_id) rs"

text \<open>The indices Python accepts for a sequence of length \<open>n\<close>, and the position they denote.\<close>

definition valid_index :: "nat \<Rightarrow> int \<Rightarrow> bool" where
  "valid_index n i \<longleftrightarrow> - int n \<le> i \<and> i < int n"

definition wrap_index :: "nat \<Rightarrow> int \<Rightarrow> nat" where
  "wrap_index n i = (if i < 0 then nat (i + int n) else nat i)"

text \<open>A layer with four neurons and two channels, used to evaluate the functions.\<close>

definition example_layer :: "int mlp" where
  "example_layer =
     \<lparr>c_fc = \<lparr>shape0 = 4, shape1 = 2, at = (\<lambda>r c. [[3, 0], [- 3, 0], [0, 0], [1, 0]] ! r ! c)\<rparr>,
      c_proj = \<lparr>shape0 = 2, shape1 = 4, at = (\<lambda>c n. [[0, 2, - 5, 2], [0, 0, 0, 0]] ! c ! n)\<rparr>\<rparr>"

text \<open>
  Every list of nodes a result holds: the list itself and, for each of its nodes, the
  lists below the node's \<open>children\<close> (\<open>parents\<close>) field.
\<close>

fun fwd_tree_lists :: "'w fwd_node \<Rightarrow> 'w fwd_node list list" where
  "fwd_tree_lists (FwdNode l n r c w kids) =
     (case kids of None \<Rightarrow> [] | Some xs \<Rightarrow> xs # concat (map fwd_tree_lists xs))"

fun bwd_tree_lists :: "'w bwd_node \<Rightarrow> 'w bwd_node list list" where
  "bwd_tree_lists (BwdNode l n w c r kids) =
     (case kids of None \<Rightarrow> [] | Some xs \<Rightarrow> xs # concat (map bwd_tree_lists xs))"

definition fwd_result_lists :: "'w fwd_node list option \<Rightarrow> 'w fwd_node list list" where
  "fwd_result_lists r =
     (case r of None \<Rightarrow> [] | Some xs \<Rightarrow> xs # concat (map fwd_tree_lists xs))"

definition bwd_result_lists :: "'w bwd_node list option \<Rightarrow> 'w bwd_node list list" where
  "bwd_result_lists r =
     (case r of None \<Rightarrow> [] | Some xs \<Rightarrow> xs # concat (map bwd_tree_lists xs))"

text \<open>A list in descending order of score that respects the cut at \<open>2 * top_k\<close>.\<close>

definition cut_ranked :: "('a \<Rightarrow> 'k::linorder) \<Rightarrow> int \<Rightarrow> 'a list \<Rightarrow> bool" where
  "cut_ranked score top_k xs \<longleftrightarrow>
     sorted_wrt (\<lambda>a b. score b \<le> score a) xs \<and> (0 \<le> top_k \<longrightarrow> int (length xs) \<le> 2 * top_k)"

text \<open>A layer with two neurons and three channels, every weight \<open>1\<close>.\<close>

definition ones_layer :: "int mlp" where
  "ones_layer =
     \<lparr>c_fc = \<lparr>shape0 = 2, shape1 = 3, at = (\<lambda>r c. 1)\<rparr>,
      c_proj = \<lparr>shape0 = 3, shape1 = 2, at = (\<lambda>c n. 1)\<rparr>\<rparr>"

text \<open>Two models for evaluation: four copies of \<open>example_layer\<close>, three of \<open>ones_layer\<close>.\<close>

definition example_layers :: "int layers" where
  "example_layers = [example_layer, example_layer, example_layer, example_layer]"

definition ones_layers :: "int layers" where
  "ones_layers = [ones_layer, ones_layer, ones_layer]"

subsection \<open>The expansion in the words of the specification\<close>

text \<open>
  The specification's \<open>connectionsOfNeuron(l, i).out\<close> and \<open>.in\<close>, its "top \<open>topK\<close> by
  absolute weight", its \<open>readersOfChannel\<close> and \<open>writersOfChannel\<close>, on positions that
  are in range, and the subtree a recursive call contributes. They are written from the
  specification, to be compared with \<open>fwd_candidates\<close> and \<open>bwd_candidates\<close>.
\<close>

definition out_connections :: "'w::zero layers \<Rightarrow> nat \<Rightarrow> nat \<Rightarrow> 'w channel_entry list" where
  "out_connections m l i =
     nonzero_channels (map (\<lambda>c. at (c_proj (m ! l)) c i) [0..<shape0 (c_proj (m ! l))])"

definition in_connections :: "'w::zero layers \<Rightarrow> nat \<Rightarrow> nat \<Rightarrow> 'w channel_entry list" where
  "in_connections m l i =
     nonzero_channels (map (\<lambda>c. at (c_fc (m ! l)) i c) [0..<shape1 (c_fc (m ! l))])"

definition top_channels ::
  "int \<Rightarrow> 'w::{zero,abs,linorder} channel_entry list \<Rightarrow> 'w channel_entry list" where
  "top_channels top_k cs = slice_to top_k (sort_desc (\<lambda>x. \<bar>ch_weight x\<bar>) cs)"

definition readers_of ::
  "'w::{zero,abs,linorder} layers \<Rightarrow> nat \<Rightarrow> nat \<Rightarrow> int \<Rightarrow> 'w neuron_entry list" where
  "readers_of m l c top_k = slice_to top_k (ranked_neurons (fc_column m l c))"

definition writers_of ::
  "'w::{zero,abs,linorder} layers \<Rightarrow> nat \<Rightarrow> nat \<Rightarrow> int \<Rightarrow> 'w neuron_entry list" where
  "writers_of m l c top_k = slice_to top_k (ranked_neurons (proj_row m l c))"

definition fwd_subtree ::
  "'w::{zero,abs,times,linorder} layers \<Rightarrow> int \<Rightarrow> int \<Rightarrow> int \<Rightarrow> int \<Rightarrow>
   'w fwd_node list option" where
  "fwd_subtree m top_k layer neuron depth =
     (case trace_from_neuron_fwd m top_k layer neuron depth of Inl e \<Rightarrow> None | Inr r \<Rightarrow> r)"

definition bwd_subtree ::
  "'w::{zero,abs,times,linorder} layers \<Rightarrow> int \<Rightarrow> int \<Rightarrow> int \<Rightarrow> int \<Rightarrow>
   'w bwd_node list option" where
  "bwd_subtree m top_k layer neuron depth =
     (case trace_from_neuron_bwd m top_k layer neuron depth of Inl e \<Rightarrow> None | Inr r \<Rightarrow> r)"

definition spec_fwd_candidates ::
  "'w::{zero,abs,times,linorder} layers \<Rightarrow> int \<Rightarrow> int \<Rightarrow> int \<Rightarrow> int \<Rightarrow> 'w fwd_node list" where
  "spec_fwd_candidates m top_k layer neuron depth =
     [FwdNode next (neuron_id r) (weight r) (channel_id ch) (ch_weight ch)
        (fwd_subtree m top_k next (neuron_id r) (depth - 1)).
      ch \<leftarrow> top_channels top_k (out_connections m (nat layer) (nat neuron)),
      next \<leftarrow> [layer + 1 .. int (length m) - 1],
      r \<leftarrow> readers_of m (nat next) (nat (channel_id ch)) top_k]"

definition spec_bwd_candidates ::
  "'w::{zero,abs,times,linorder} layers \<Rightarrow> int \<Rightarrow> int \<Rightarrow> int \<Rightarrow> int \<Rightarrow> 'w bwd_node list" where
  "spec_bwd_candidates m top_k layer neuron depth =
     [BwdNode prev (neuron_id w) (weight w) (channel_id ch) (ch_weight ch)
        (bwd_subtree m top_k prev (neuron_id w) (depth - 1)).
      ch \<leftarrow> top_channels top_k (in_connections m (nat layer) (nat neuron)),
      prev \<leftarrow> rev [0 .. layer - 1],
      w \<leftarrow> writers_of m (nat prev) (nat (channel_id ch)) top_k]"

section \<open>Facts about the Python helpers\<close>


lemma bind_result_simps [simp]:
  "bind_result (Inl e) f = Inl e" "bind_result (Inr x) f = f x"
  by (simp_all add: bind_result_def)

lemma bind_result_eq_Inr:
  "bind_result r f = Inr y \<longleftrightarrow> (\<exists>x. r = Inr x \<and> f x = Inr y)"
  by (cases r) auto

lemma sort_desc_simps [simp]:
  "sort_desc f [] = []" "sort_desc f (x # xs) = insort_desc f x (sort_desc f xs)"
  by (simp_all add: sort_desc_def)

lemma mset_insort_desc: "mset (insort_desc f x xs) = add_mset x (mset xs)"
  by (induction xs) auto

lemma mset_sort_desc: "mset (sort_desc f xs) = mset xs"
  by (induction xs) (auto simp: mset_insort_desc)

lemma set_sort_desc [simp]: "set (sort_desc f xs) = set xs"
  by (metis mset_sort_desc set_mset_mset)

lemma length_sort_desc [simp]: "length (sort_desc f xs) = length xs"
  by (metis mset_sort_desc size_mset)

lemma sort_desc_eq_Nil [simp]: "sort_desc f xs = [] \<longleftrightarrow> xs = []"
  by (metis length_sort_desc length_0_conv)

lemma set_insort_desc: "set (insort_desc f x xs) = insert x (set xs)"
  by (metis mset_insort_desc set_mset_add_mset_insert set_mset_mset)

lemma ranked_insort_desc:
  "sorted_wrt (ranked f g) ys \<Longrightarrow> \<forall>y\<in>set ys. g x < g y \<Longrightarrow>
   sorted_wrt (ranked f g) (insort_desc f x ys)"
proof (induction ys)
  case Nil
  then show ?case by simp
next
  case (Cons y ys)
  show ?case
  proof (cases "f y \<le> f x")
    case True
    have "ranked f g x z" if "z \<in> set (y # ys)" for z
    proof -
      have "f z \<le> f y" using that Cons.prems(1) by (auto simp: ranked_def)
      moreover have "g x < g z" using that Cons.prems(2) by auto
      ultimately show ?thesis using True by (auto simp: ranked_def)
    qed
    then show ?thesis using True Cons.prems(1) by simp
  next
    case False
    then have "ranked f g y x" by (auto simp: ranked_def)
    then show ?thesis using False Cons by (auto simp: set_insort_desc)
  qed
qed

lemma ranked_sort_desc:
  "sorted_wrt (\<lambda>a b. g a < g b) xs \<Longrightarrow> sorted_wrt (ranked f g) (sort_desc f xs)"
  by (induction xs) (auto intro: ranked_insort_desc)

lemma sorted_wrt_take: "sorted_wrt R xs \<Longrightarrow> sorted_wrt R (take n xs)"
  by (metis append_take_drop_id sorted_wrt_append)

lemma sorted_wrt_slice_to: "sorted_wrt R xs \<Longrightarrow> sorted_wrt R (slice_to k xs)"
  by (simp add: slice_to_def sorted_wrt_take)

lemma descending_insort_desc:
  "sorted_wrt (\<lambda>a b. f b \<le> f a) ys \<Longrightarrow> sorted_wrt (\<lambda>a b. f b \<le> f a) (insort_desc f x ys)"
  by (induction ys) (auto simp: set_insort_desc)

lemma descending_sort_desc: "sorted_wrt (\<lambda>a b. f b \<le> f a) (sort_desc f xs)"
  by (induction xs) (auto intro: descending_insort_desc)

lemma filter_insort_desc:
  "sorted_wrt (\<lambda>a b. f b \<le> f a) ys \<Longrightarrow>
   filter (\<lambda>y. f y = k) (insort_desc f x ys) = filter (\<lambda>y. f y = k) (x # ys)"
  by (induction ys) (auto simp: filter_empty_conv)

lemma sort_desc_stable: "filter (\<lambda>y. f y = k) (sort_desc f xs) = filter (\<lambda>y. f y = k) xs"
  by (induction xs) (simp_all add: filter_insort_desc descending_sort_desc)

lemma set_slice_to: "set (slice_to k xs) \<subseteq> set xs"
  by (auto simp: slice_to_def dest: in_set_takeD)

lemma length_slice_to:
  "length (slice_to k xs) = (if 0 \<le> k then min (nat k) (length xs) else length xs - nat (- k))"
  by (auto simp: slice_to_def)

lemma slice_to_nonneg: "0 \<le> k \<Longrightarrow> slice_to k xs = take (nat k) xs"
  by (simp add: slice_to_def)

lemma norm_index_in_range: "0 \<le> i \<Longrightarrow> i < int n \<Longrightarrow> norm_index n i = Inr (nat i)"
  by (simp add: norm_index_def)

lemma norm_index_cases:
  "norm_index n i = (if valid_index n i then Inr (wrap_index n i) else Inl IndexError)"
  by (simp add: norm_index_def valid_index_def wrap_index_def)

lemma getitem_in_range: "0 \<le> i \<Longrightarrow> i < int (length xs) \<Longrightarrow> getitem xs i = Inr (xs ! nat i)"
  by (simp add: getitem_def norm_index_in_range)

lemma getitem_cases:
  "getitem xs i =
     (if valid_index (length xs) i then Inr (xs ! wrap_index (length xs) i) else Inl IndexError)"
  by (simp add: getitem_def norm_index_cases)

lemma sorted_enumerate: "sorted_wrt (\<lambda>a b. fst a < fst b) (enumerate n xs)"
  by (induction xs arbitrary: n) (auto simp: in_set_enumerate_eq)

lemma nonzero_neurons_sorted: "sorted_wrt (\<lambda>a b. neuron_id a < neuron_id b) (nonzero_neurons ws)"
proof -
  have "sorted_wrt (\<lambda>a b. fst a < fst b) (filter (\<lambda>(i, w). w \<noteq> 0) (enumerate 0 ws))"
    by (rule sorted_wrt_filter) (rule sorted_enumerate)
  then show ?thesis
    by (simp add: nonzero_neurons_def sorted_wrt_map case_prod_beta)
qed

lemma nonzero_neurons_set:
  "x \<in> set (nonzero_neurons ws) \<Longrightarrow>
   weight x \<noteq> 0 \<and> 0 \<le> neuron_id x \<and> neuron_id x < int (length ws) \<and>
   weight x = ws ! nat (neuron_id x)"
  by (auto simp: nonzero_neurons_def in_set_enumerate_eq)

lemma nonzero_neurons_Nil: "nonzero_neurons ws = [] \<longleftrightarrow> (\<forall>w\<in>set ws. w = 0)"
proof -
  have "set ws = snd ` set (enumerate 0 ws)"
    by (metis map_snd_enumerate set_map)
  then show ?thesis
    by (force simp: nonzero_neurons_def filter_empty_conv)
qed

lemma ranked_neurons_top:
  "0 < k \<Longrightarrow> top_ranked k (slice_to k (ranked_neurons ws))"
proof -
  let ?rs = "ranked_neurons ws"
  assume k: "0 < k"
  have 1: "sorted_wrt (\<lambda>a b. \<bar>weight b\<bar> \<le> \<bar>weight a\<bar>) (slice_to k ?rs)"
    unfolding ranked_neurons_def by (intro sorted_wrt_slice_to descending_sort_desc)
  have 2: "sorted_wrt (ranked (\<lambda>x. \<bar>weight x\<bar>) neuron_id) (slice_to k ?rs)"
    unfolding ranked_neurons_def
    by (intro sorted_wrt_slice_to ranked_sort_desc nonzero_neurons_sorted)
  have 3: "int (length (slice_to k ?rs)) \<le> k"
    using k by (simp add: length_slice_to)
  have 4: "\<forall>r\<in>set (slice_to k ?rs). weight r \<noteq> 0"
    using set_slice_to[of k ?rs] nonzero_neurons_set[of _ ws]
    by (auto simp: ranked_neurons_def)
  from 1 2 3 4 show ?thesis by (simp add: top_ranked_def)
qed

lemma select_col_in_range:
  "0 \<le> j \<Longrightarrow> j < int (shape1 T) \<Longrightarrow>
   select_col T j = Inr (map (\<lambda>r. at T r (nat j)) [0..<shape0 T])"
  by (simp add: select_col_def norm_index_in_range)

lemma select_row_in_range:
  "0 \<le> i \<Longrightarrow> i < int (shape0 T) \<Longrightarrow>
   select_row T i = Inr (map (\<lambda>c. at T (nat i) c) [0..<shape1 T])"
  by (simp add: select_row_def norm_index_in_range)

lemma readers_in_range:
  "0 \<le> l \<Longrightarrow> l < int (length m) \<Longrightarrow> 0 \<le> c \<Longrightarrow> c < int (shape1 (c_fc (m ! nat l))) \<Longrightarrow>
   find_neurons_reading_channel m l c k =
     Inr (slice_to k (ranked_neurons (fc_column m (nat l) (nat c))))"
  by (simp add: find_neurons_reading_channel_def getitem_in_range select_col_in_range
      ranked_neurons_def fc_column_def)

lemma writers_in_range:
  "0 \<le> l \<Longrightarrow> l < int (length m) \<Longrightarrow> 0 \<le> c \<Longrightarrow> c < int (shape0 (c_proj (m ! nat l))) \<Longrightarrow>
   find_neurons_writing_channel m l c k =
     Inr (slice_to k (ranked_neurons (proj_row m (nat l) (nat c))))"
  by (simp add: find_neurons_writing_channel_def getitem_in_range select_row_in_range
      ranked_neurons_def proj_row_def)

text \<open>
  C4. For a layer and a channel in range and \<open>top_k > 0\<close>, the readers and the writers
  of the channel are returned without error, in non-increasing order of absolute
  weight, at most \<open>top_k\<close> of them, none with weight zero, and entries of equal
  absolute weight stand in the order of their neuron index (the sort is stable).
\<close>

theorem readers_writers_top_ranked:
  assumes "0 \<le> layer" "layer < int (length m)" "0 < top_k"
  shows "(0 \<le> channel \<and> channel < int (shape1 (c_fc (m ! nat layer))) \<longrightarrow>
            (\<exists>rs. find_neurons_reading_channel m layer channel top_k = Inr rs \<and>
                  top_ranked top_k rs)) \<and>
         (0 \<le> channel \<and> channel < int (shape0 (c_proj (m ! nat layer))) \<longrightarrow>
            (\<exists>ws. find_neurons_writing_channel m layer channel top_k = Inr ws \<and>
                  top_ranked top_k ws))"
  using assms by (simp add: readers_in_range writers_in_range ranked_neurons_top)

text \<open>The theorem at a layer whose column holds a tie (\<open>3\<close> and \<open>-3\<close>) and a zero.\<close>

theorem readers_writers_top_ranked_witness:
  "(0::int) \<le> 0 \<and> (0::int) < int (length [example_layer]) \<and> (0::int) < 2 \<and>
   find_neurons_reading_channel [example_layer] 0 0 2 =
     Inr [NeuronEntry 0 3, NeuronEntry 1 (- 3)] \<and>
   top_ranked 2 [NeuronEntry 0 (3::int), NeuronEntry 1 (- 3)] \<and>
   find_neurons_writing_channel [example_layer] 0 0 2 =
     Inr [NeuronEntry 2 (- 5), NeuronEntry 1 2] \<and>
   top_ranked 2 [NeuronEntry 2 (- 5::int), NeuronEntry 1 2]"
proof -
  have r: "find_neurons_reading_channel [example_layer] 0 0 2 =
           Inr [NeuronEntry 0 3, NeuronEntry 1 (- 3)]"
    by code_simp
  have w: "find_neurons_writing_channel [example_layer] 0 0 2 =
           Inr [NeuronEntry 2 (- 5), NeuronEntry 1 2]"
    by code_simp
  show ?thesis
    using readers_writers_top_ranked [of 0 "[example_layer]" 2 0] r w
    by (simp add: example_layer_def)
qed

declare trace_from_neuron_fwd.simps [simp del]

declare trace_from_neuron_bwd.simps [simp del]

lemma fwd_terminal:
  "remaining_depth = 0 \<or> int (length m) - 1 \<le> layer \<Longrightarrow>
   trace_from_neuron_fwd m top_k layer neuron remaining_depth = Inr None"
  by (subst trace_from_neuron_fwd.simps) simp

lemma bwd_terminal:
  "remaining_depth = 0 \<or> layer \<le> 0 \<Longrightarrow>
   trace_from_neuron_bwd m top_k layer neuron remaining_depth = Inr None"
  by (subst trace_from_neuron_bwd.simps) simp

text \<open>
  C3. With \<open>depth = 0\<close> both tracers return the empty list, and so does the forward
  tracer started at the last layer and the backward tracer started at layer \<open>0\<close>,
  whatever the other arguments are (no index is looked up before the test).
\<close>

theorem trace_terminal_empty:
  "trace_circuit_forward m layer neuron 0 top_k = Inr [] \<and>
   trace_circuit_forward m (int (length m) - 1) neuron depth top_k = Inr [] \<and>
   trace_circuit_backward m layer neuron 0 top_k = Inr [] \<and>
   trace_circuit_backward m 0 neuron depth top_k = Inr []"
  by (simp add: trace_circuit_forward_def trace_circuit_backward_def fwd_terminal bwd_terminal
      or_empty_def)

theorem trace_terminal_empty_witness:
  "trace_circuit_forward [example_layer, example_layer] 7 (- 9) 0 3 = Inr [] \<and>
   trace_circuit_forward [example_layer, example_layer] 1 (- 9) 4 3 = Inr [] \<and>
   trace_circuit_backward [example_layer, example_layer] 7 (- 9) 0 3 = Inr [] \<and>
   trace_circuit_backward [example_layer, example_layer] 0 (- 9) 4 3 = Inr []"
  using trace_terminal_empty [of "[example_layer, example_layer]" 7 "- 9" 3 4]
  by simp

lemma neuron_get_connected_reschannels_cases:
  "neuron_get_connected_reschannels m layer neuron =
     (let L = m ! wrap_index (length m) layer in
      if valid_index (length m) layer \<and> valid_index (shape0 (c_fc L)) neuron \<and>
         valid_index (shape1 (c_proj L)) neuron
      then Inr \<lparr>conn_in = nonzero_channels
                   (map (\<lambda>c. at (c_fc L) (wrap_index (shape0 (c_fc L)) neuron) c)
                      [0..<shape1 (c_fc L)]),
               conn_out = nonzero_channels
                   (map (\<lambda>c. at (c_proj L) c (wrap_index (shape1 (c_proj L)) neuron))
                      [0..<shape0 (c_proj L)])\<rparr>
      else Inl IndexError)"
  by (simp add: neuron_get_connected_reschannels_def getitem_cases select_row_def select_col_def
      norm_index_cases Let_def)

lemma readers_cases:
  "find_neurons_reading_channel m layer channel top_k =
     (let l = wrap_index (length m) layer in
      if valid_index (length m) layer \<and> valid_index (shape1 (c_fc (m ! l))) channel
      then Inr (slice_to top_k
                  (ranked_neurons (fc_column m l (wrap_index (shape1 (c_fc (m ! l))) channel))))
      else Inl IndexError)"
  by (simp add: find_neurons_reading_channel_def getitem_cases select_col_def
      norm_index_cases Let_def ranked_neurons_def fc_column_def)

lemma writers_cases:
  "find_neurons_writing_channel m layer channel top_k =
     (let l = wrap_index (length m) layer in
      if valid_index (length m) layer \<and> valid_index (shape0 (c_proj (m ! l))) channel
      then Inr (slice_to top_k
                  (ranked_neurons (proj_row m l (wrap_index (shape0 (c_proj (m ! l))) channel))))
      else Inl IndexError)"
  by (simp add: find_neurons_writing_channel_def getitem_cases select_row_def
      norm_index_cases Let_def ranked_neurons_def proj_row_def)

lemma valid_index_in_range: "0 \<le> i \<Longrightarrow> i < int n \<Longrightarrow> valid_index n i"
  by (simp add: valid_index_def)

text \<open>
  C5, as the code has it. Each extractor raises \<open>IndexError\<close> exactly when an index
  lies outside \<open>[-n, n)\<close> for the dimension \<open>n\<close> it addresses: the layer against the
  number of layers; a neuron against the rows of \<open>c_fc\<close> and the columns of \<open>c_proj\<close>; a
  channel against the columns of \<open>c_fc\<close> (readers) or the rows of \<open>c_proj\<close> (writers).
  Every index \<open>0 \<le> i < n\<close> succeeds and denotes position \<open>i\<close>; an index
  \<open>-n \<le> i < 0\<close> succeeds as well and denotes position \<open>n + i\<close>.
\<close>

theorem extractor_index_errors:
  fixes m :: "'w::{zero,abs,linorder} layers"
  shows
  "(let L = m ! wrap_index (length m) layer in
      neuron_get_connected_reschannels m layer i =
        (if valid_index (length m) layer \<and> valid_index (shape0 (c_fc L)) i \<and>
            valid_index (shape1 (c_proj L)) i
         then Inr \<lparr>conn_in = nonzero_channels
                      (map (\<lambda>c. at (c_fc L) (wrap_index (shape0 (c_fc L)) i) c)
                         [0..<shape1 (c_fc L)]),
                  conn_out = nonzero_channels
                      (map (\<lambda>c. at (c_proj L) c (wrap_index (shape1 (c_proj L)) i))
                         [0..<shape0 (c_proj L)])\<rparr>
         else Inl IndexError) \<and>
      find_neurons_reading_channel m layer i top_k =
        (if valid_index (length m) layer \<and> valid_index (shape1 (c_fc L)) i
         then Inr (slice_to top_k
                 (ranked_neurons
                    (fc_column m (wrap_index (length m) layer) (wrap_index (shape1 (c_fc L)) i))))
         else Inl IndexError) \<and>
      find_neurons_writing_channel m layer i top_k =
        (if valid_index (length m) layer \<and> valid_index (shape0 (c_proj L)) i
         then Inr (slice_to top_k
                 (ranked_neurons
                    (proj_row m (wrap_index (length m) layer)
                       (wrap_index (shape0 (c_proj L)) i))))
         else Inl IndexError)) \<and>
   (\<forall>n j. 0 \<le> j \<and> j < int n \<longrightarrow> valid_index n j \<and> wrap_index n j = nat j) \<and>
   (\<forall>n j. - int n \<le> j \<and> j < 0 \<longrightarrow> valid_index n j \<and> wrap_index n j = nat (int n + j)) \<and>
   (\<forall>n j. j < - int n \<or> int n \<le> j \<longrightarrow> \<not> valid_index n j)"
proof -
  have a: "\<forall>n j. 0 \<le> j \<and> j < int n \<longrightarrow> valid_index n j \<and> wrap_index n j = nat j"
    by (simp add: valid_index_def wrap_index_def)
  have b: "\<forall>n j. - int n \<le> j \<and> j < 0 \<longrightarrow> valid_index n j \<and> wrap_index n j = nat (int n + j)"
    by (simp add: valid_index_def wrap_index_def add.commute)
  have c: "\<forall>n j. j < - int n \<or> int n \<le> j \<longrightarrow> \<not> valid_index n j"
    by (auto simp: valid_index_def)
  show ?thesis
    unfolding Let_def
    using a b c neuron_get_connected_reschannels_cases [of m layer i]
      readers_cases [of m layer i top_k] writers_cases [of m layer i top_k]
    unfolding Let_def by simp
qed

text \<open>The theorem at the last layer and the last-but-one index, both written negatively.\<close>

theorem extractor_index_errors_witness:
  "neuron_get_connected_reschannels [example_layer] (- 1) (- 2) =
     Inr \<lparr>conn_in = [], conn_out = [ChannelEntry 0 (- 5)]\<rparr> \<and>
   find_neurons_reading_channel [example_layer] (- 1) (- 2) 5 =
     Inr [NeuronEntry 0 3, NeuronEntry 1 (- 3), NeuronEntry 3 1] \<and>
   find_neurons_writing_channel [example_layer] (- 1) (- 2) 5 =
     Inr [NeuronEntry 2 (- 5), NeuronEntry 1 2, NeuronEntry 3 2] \<and>
   valid_index (length [example_layer]) (- 1) \<and>
   wrap_index (length [example_layer]) (- 1) = 0"
proof -
  have v: "neuron_get_connected_reschannels [example_layer] (- 1) (- 2) =
             Inr \<lparr>conn_in = [], conn_out = [ChannelEntry 0 (- 5)]\<rparr>"
    "find_neurons_reading_channel [example_layer] (- 1) (- 2) 5 =
       Inr [NeuronEntry 0 3, NeuronEntry 1 (- 3), NeuronEntry 3 1]"
    "find_neurons_writing_channel [example_layer] (- 1) (- 2) 5 =
       Inr [NeuronEntry 2 (- 5), NeuronEntry 1 2, NeuronEntry 3 2]"
    by code_simp+
  show ?thesis
    using extractor_index_errors [of "[example_layer]" "- 1" "- 2" 5] v
    by (simp add: valid_index_def wrap_index_def)
qed

text \<open>
  Negative indices are not rejected: on a model of one layer, layer \<open>-1\<close> with neuron
  \<open>-4\<close> or channel \<open>-2\<close> is answered like layer \<open>0\<close> with neuron \<open>0\<close> or channel \<open>0\<close>.
\<close>

theorem negative_index_counterexample:
  "neuron_get_connected_reschannels [example_layer] (- 1) (- 4) =
     Inr \<lparr>conn_in = [ChannelEntry 0 3], conn_out = []\<rparr> \<and>
   find_neurons_reading_channel [example_layer] (- 1) (- 2) 5 =
     Inr [NeuronEntry 0 3, NeuronEntry 1 (- 3), NeuronEntry 3 1] \<and>
   find_neurons_writing_channel [example_layer] (- 1) (- 2) 5 =
     Inr [NeuronEntry 2 (- 5), NeuronEntry 1 2, NeuronEntry 3 2]"
  by code_simp

text \<open>
  C6, as the code has it. For a layer and a channel in range and \<open>top_k \<le> 0\<close> neither
  extractor raises. For \<open>top_k = 0\<close> the result is empty. For \<open>top_k < 0\<close> it is the
  complete ranking without its last \<open>-top_k\<close> entries, which is empty exactly when the
  vector has at most \<open>-top_k\<close> nonzero entries.
\<close>

theorem nonpositive_top_k:
  assumes "0 \<le> layer" "layer < int (length m)" "top_k \<le> 0"
  shows "(0 \<le> channel \<and> channel < int (shape1 (c_fc (m ! nat layer))) \<longrightarrow>
            (\<exists>rs. find_neurons_reading_channel m layer channel top_k = Inr rs \<and>
                  (top_k = 0 \<longrightarrow> rs = []) \<and>
                  (top_k < 0 \<longrightarrow>
                     rs = take (length (ranked_neurons (fc_column m (nat layer) (nat channel)))
                                - nat (- top_k))
                            (ranked_neurons (fc_column m (nat layer) (nat channel)))) \<and>
                  (rs = [] \<longleftrightarrow>
                     top_k = 0 \<or>
                     length (ranked_neurons (fc_column m (nat layer) (nat channel)))
                       \<le> nat (- top_k)))) \<and>
         (0 \<le> channel \<and> channel < int (shape0 (c_proj (m ! nat layer))) \<longrightarrow>
            (\<exists>ws. find_neurons_writing_channel m layer channel top_k = Inr ws \<and>
                  (top_k = 0 \<longrightarrow> ws = []) \<and>
                  (top_k < 0 \<longrightarrow>
                     ws = take (length (ranked_neurons (proj_row m (nat layer) (nat channel)))
                                - nat (- top_k))
                            (ranked_neurons (proj_row m (nat layer) (nat channel)))) \<and>
                  (ws = [] \<longleftrightarrow>
                     top_k = 0 \<or>
                     length (ranked_neurons (proj_row m (nat layer) (nat channel)))
                       \<le> nat (- top_k))))"
proof -
  have z: "slice_to 0 xs = []" for xs :: "'w neuron_entry list"
    by (simp add: slice_to_def)
  have s: "slice_to top_k xs = take (length xs - nat (- top_k)) xs"
    if "top_k < 0" for xs :: "'w neuron_entry list"
  proof -
    have "nat (int (length xs) + top_k) = length xs - nat (- top_k)"
      using that by linarith
    then show ?thesis using that by (simp add: slice_to_def)
  qed
  show ?thesis
  proof (cases "top_k = 0")
    case True
    then show ?thesis using assms by (simp add: readers_in_range writers_in_range z)
  next
    case False
    then have "top_k < 0" using assms(3) by simp
    then show ?thesis using assms by (auto simp: readers_in_range writers_in_range s)
  qed
qed

theorem nonpositive_top_k_witness:
  "(0::int) \<le> 0 \<and> (0::int) < int (length [example_layer]) \<and> (- 3::int) \<le> 0 \<and>
   find_neurons_reading_channel [example_layer] 0 0 (- 3) = Inr [] \<and>
   find_neurons_writing_channel [example_layer] 0 0 0 = Inr [] \<and>
   length (ranked_neurons (fc_column [example_layer] (nat 0) (nat 0))) = 3"
proof -
  have v: "ranked_neurons (fc_column [example_layer] 0 0) =
             [NeuronEntry 0 3, NeuronEntry 1 (- 3), NeuronEntry 3 1]"
    by code_simp
  show ?thesis
    using nonpositive_top_k [of 0 "[example_layer]" "- 3" 0]
      nonpositive_top_k [of 0 "[example_layer]" 0 0] v
    by (simp add: example_layer_def)
qed

text \<open>
  With \<open>top_k = -1\<close> the result is not empty: the slice \<^verbatim>\<open>neurons[:-1]\<close> drops the last
  entry only.
\<close>

theorem negative_top_k_counterexample:
  "find_neurons_reading_channel [example_layer] 0 0 (- 1) =
     Inr [NeuronEntry 0 3, NeuronEntry 1 (- 3)] \<and>
   find_neurons_writing_channel [example_layer] 0 0 (- 1) =
     Inr [NeuronEntry 2 (- 5), NeuronEntry 1 2]"
  by code_simp

lemma bind_result_assoc:
  "bind_result (bind_result r f) g = bind_result r (\<lambda>x. bind_result (f x) g)"
  by (cases r) simp_all

lemma map_result_set:
  "map_result f xs = Inr ys \<Longrightarrow> y \<in> set ys \<Longrightarrow> \<exists>x\<in>set xs. f x = Inr y"
  by (induction xs arbitrary: ys) (auto simp: bind_result_eq_Inr)

lemma concat_map_result_set:
  "concat_map_result f xs = Inr zs \<Longrightarrow> z \<in> set zs \<Longrightarrow>
   \<exists>x\<in>set xs. \<exists>ys. f x = Inr ys \<and> z \<in> set ys"
  unfolding concat_map_result_def
  by (fastforce simp: bind_result_eq_Inr dest: map_result_set)

lemma trace_from_neuron_fwd_unfold:
  "trace_from_neuron_fwd m top_k layer neuron d =
     (if d = 0 \<or> int (length m) - 1 \<le> layer then Inr None
      else bind_result (fwd_candidates m top_k layer neuron d)
             (\<lambda>result. Inr (rerank fwd_score top_k result)))"
  by (subst trace_from_neuron_fwd.simps)
     (simp add: fwd_candidates_def rerank_def bind_result_assoc Let_def)

lemma trace_from_neuron_bwd_unfold:
  "trace_from_neuron_bwd m top_k layer neuron d =
     (if d = 0 \<or> layer \<le> 0 then Inr None
      else bind_result (bwd_candidates m top_k layer neuron d)
             (\<lambda>result. Inr (rerank bwd_score top_k result)))"
  by (subst trace_from_neuron_bwd.simps)
     (simp add: bwd_candidates_def rerank_def bind_result_assoc Let_def)

lemma fwd_candidates_elem:
  assumes "fwd_candidates m top_k layer neuron d = Inr cands" "x \<in> set cands"
  shows "\<exists>connections ch next_layer readers reader.
           neuron_get_connected_reschannels m layer neuron = Inr connections \<and>
           ch \<in> set (slice_to top_k (sort_desc (\<lambda>x. \<bar>ch_weight x\<bar>) (conn_out connections))) \<and>
           next_layer \<in> set [layer + 1 .. int (length m) - 1] \<and>
           find_neurons_reading_channel m next_layer (channel_id ch) top_k = Inr readers \<and>
           reader \<in> set readers \<and>
           trace_from_neuron_fwd m top_k next_layer (neuron_id reader) (d - 1) = Inr (children x) \<and>
           x = FwdNode next_layer (neuron_id reader) (weight reader) (channel_id ch)
                 (ch_weight ch) (children x)"
proof -
  from assms(1) obtain connections where
    c: "neuron_get_connected_reschannels m layer neuron = Inr connections"
    and r: "concat_map_result (\<lambda>ch.
       concat_map_result (\<lambda>next_layer.
         bind_result
           (find_neurons_reading_channel m next_layer (channel_id ch) top_k)
           (map_result (\<lambda>reader.
              bind_result
                (trace_from_neuron_fwd m top_k next_layer (neuron_id reader) (d - 1))
                (\<lambda>kids. Inr (FwdNode next_layer (neuron_id reader) (weight reader)
                                (channel_id ch) (ch_weight ch) kids)))))
         [layer + 1 .. int (length m) - 1])
       (slice_to top_k (sort_desc (\<lambda>x. \<bar>ch_weight x\<bar>) (conn_out connections))) = Inr cands"
    by (auto simp: fwd_candidates_def bind_result_eq_Inr Let_def)
  from concat_map_result_set [OF r assms(2)] obtain ch ys where
    ch: "ch \<in> set (slice_to top_k (sort_desc (\<lambda>x. \<bar>ch_weight x\<bar>) (conn_out connections)))"
    and r2: "concat_map_result (\<lambda>next_layer.
         bind_result
           (find_neurons_reading_channel m next_layer (channel_id ch) top_k)
           (map_result (\<lambda>reader.
              bind_result
                (trace_from_neuron_fwd m top_k next_layer (neuron_id reader) (d - 1))
                (\<lambda>kids. Inr (FwdNode next_layer (neuron_id reader) (weight reader)
                                (channel_id ch) (ch_weight ch) kids)))))
         [layer + 1 .. int (length m) - 1] = Inr ys"
    and x: "x \<in> set ys"
    by blast
  from concat_map_result_set [OF r2 x] obtain next_layer zs where
    n: "next_layer \<in> set [layer + 1 .. int (length m) - 1]"
    and r3: "bind_result
           (find_neurons_reading_channel m next_layer (channel_id ch) top_k)
           (map_result (\<lambda>reader.
              bind_result
                (trace_from_neuron_fwd m top_k next_layer (neuron_id reader) (d - 1))
                (\<lambda>kids. Inr (FwdNode next_layer (neuron_id reader) (weight reader)
                                (channel_id ch) (ch_weight ch) kids)))) = Inr zs"
    and x2: "x \<in> set zs"
    by blast
  from r3 obtain readers where
    rd: "find_neurons_reading_channel m next_layer (channel_id ch) top_k = Inr readers"
    and r4: "map_result (\<lambda>reader.
              bind_result
                (trace_from_neuron_fwd m top_k next_layer (neuron_id reader) (d - 1))
                (\<lambda>kids. Inr (FwdNode next_layer (neuron_id reader) (weight reader)
                                (channel_id ch) (ch_weight ch) kids))) readers = Inr zs"
    by (auto simp: bind_result_eq_Inr)
  from map_result_set [OF r4 x2] obtain reader kids where
    "reader \<in> set readers"
    "trace_from_neuron_fwd m top_k next_layer (neuron_id reader) (d - 1) = Inr kids"
    "x = FwdNode next_layer (neuron_id reader) (weight reader) (channel_id ch) (ch_weight ch) kids"
    by (auto simp: bind_result_eq_Inr)
  with c ch n rd show ?thesis by auto
qed

lemma bwd_candidates_elem:
  assumes "bwd_candidates m top_k layer neuron d = Inr cands" "x \<in> set cands"
  shows "\<exists>connections ch prev_layer writers writer.
           neuron_get_connected_reschannels m layer neuron = Inr connections \<and>
           ch \<in> set (slice_to top_k (sort_desc (\<lambda>x. \<bar>ch_weight x\<bar>) (conn_in connections))) \<and>
           prev_layer \<in> set (rev [0 .. layer - 1]) \<and>
           find_neurons_writing_channel m prev_layer (channel_id ch) top_k = Inr writers \<and>
           writer \<in> set writers \<and>
           trace_from_neuron_bwd m top_k prev_layer (neuron_id writer) (d - 1) = Inr (parents x) \<and>
           x = BwdNode prev_layer (neuron_id writer) (weight writer) (channel_id ch)
                 (ch_weight ch) (parents x)"
proof -
  from assms(1) obtain connections where
    c: "neuron_get_connected_reschannels m layer neuron = Inr connections"
    and r: "concat_map_result (\<lambda>ch.
       concat_map_result (\<lambda>prev_layer.
         bind_result
           (find_neurons_writing_channel m prev_layer (channel_id ch) top_k)
           (map_result (\<lambda>writer.
              bind_result
                (trace_from_neuron_bwd m top_k prev_layer (neuron_id writer) (d - 1))
                (\<lambda>kids. Inr (BwdNode prev_layer (neuron_id writer) (weight writer)
                                (channel_id ch) (ch_weight ch) kids)))))
         (rev [0 .. layer - 1]))
       (slice_to top_k (sort_desc (\<lambda>x. \<bar>ch_weight x\<bar>) (conn_in connections))) = Inr cands"
    by (auto simp: bwd_candidates_def bind_result_eq_Inr Let_def)
  from concat_map_result_set [OF r assms(2)] obtain ch ys where
    ch: "ch \<in> set (slice_to top_k (sort_desc (\<lambda>x. \<bar>ch_weight x\<bar>) (conn_in connections)))"
    and r2: "concat_map_result (\<lambda>prev_layer.
         bind_result
           (find_neurons_writing_channel m prev_layer (channel_id ch) top_k)
           (map_result (\<lambda>writer.
              bind_result
                (trace_from_neuron_bwd m top_k prev_layer (neuron_id writer) (d - 1))
                (\<lambda>kids. Inr (BwdNode prev_layer (neuron_id writer) (weight writer)
                                (channel_id ch) (ch_weight ch) kids)))))
         (rev [0 .. layer - 1]) = Inr ys"
    and x: "x \<in> set ys"
    by blast
  from concat_map_result_set [OF r2 x] obtain prev_layer zs where
    n: "prev_layer \<in> set (rev [0 .. layer - 1])"
    and r3: "bind_result
           (find_neurons_writing_channel m prev_layer (channel_id ch) top_k)
           (map_result (\<lambda>writer.
              bind_result
                (trace_from_neuron_bwd m top_k prev_layer (neuron_id writer) (d - 1))
                (\<lambda>kids. Inr (BwdNode prev_layer (neuron_id writer) (weight writer)
                                (channel_id ch) (ch_weight ch) kids)))) = Inr zs"
    and x2: "x \<in> set zs"
    by blast
  from r3 obtain writers where
    rd: "find_neurons_writing_channel m prev_layer (channel_id ch) top_k = Inr writers"
    and r4: "map_result (\<lambda>writer.
              bind_result
                (trace_from_neuron_bwd m top_k prev_layer (neuron_id writer) (d - 1))
                (\<lambda>kids. Inr (BwdNode prev_layer (neuron_id writer) (weight writer)
                                (channel_id ch) (ch_weight ch) kids))) writers = Inr zs"
    by (auto simp: bind_result_eq_Inr)
  from map_result_set [OF r4 x2] obtain writer kids where
    "writer \<in> set writers"
    "trace_from_neuron_bwd m top_k prev_layer (neuron_id writer) (d - 1) = Inr kids"
    "x = BwdNode prev_layer (neuron_id writer) (weight writer) (channel_id ch) (ch_weight ch) kids"
    by (auto simp: bind_result_eq_Inr)
  with c ch n rd show ?thesis by auto
qed

lemma slice_to_0 [simp]: "slice_to 0 xs = []"
  by (simp add: slice_to_def)

lemma fwd_candidates_top_k_0: "fwd_candidates m 0 layer neuron d = Inr cands \<Longrightarrow> cands = []"
  using fwd_candidates_elem [of m 0 layer neuron d cands] by (cases cands) auto

lemma bwd_candidates_top_k_0: "bwd_candidates m 0 layer neuron d = Inr cands \<Longrightarrow> cands = []"
  using bwd_candidates_elem [of m 0 layer neuron d cands] by (cases cands) auto

lemma fwd_tree_lists_children: "fwd_tree_lists x = fwd_result_lists (children x)"
  by (cases x) (simp add: fwd_result_lists_def)

lemma bwd_tree_lists_parents: "bwd_tree_lists x = bwd_result_lists (parents x)"
  by (cases x) (simp add: bwd_result_lists_def)

lemma fwd_lists_invariant:
  "\<forall>cands. cands \<noteq> [] \<longrightarrow> top_k \<noteq> 0 \<longrightarrow>
      P (slice_to (top_k * 2) (sort_desc fwd_score cands)) \<Longrightarrow>
   trace_from_neuron_fwd m top_k layer neuron d = Inr r \<Longrightarrow>
   xs \<in> set (fwd_result_lists r) \<Longrightarrow> P xs"
proof (induction m top_k layer neuron d arbitrary: r xs rule: trace_from_neuron_fwd.induct)
  case (1 m top_k layer neuron d)
  note P = "1.prems"(1)
  show ?case
  proof (cases "d = 0 \<or> int (length m) - 1 \<le> layer")
    case True
    then have "r = None" using "1.prems"(2) by (simp add: fwd_terminal)
    then show ?thesis using "1.prems"(3) by (simp add: fwd_result_lists_def)
  next
    case False
    then obtain cands where c: "fwd_candidates m top_k layer neuron d = Inr cands"
      and r: "r = rerank fwd_score top_k cands"
      using "1.prems"(2) by (auto simp: trace_from_neuron_fwd_unfold bind_result_eq_Inr)
    show ?thesis
    proof (cases "cands = []")
      case True
      then show ?thesis using r "1.prems"(3) by (simp add: rerank_def fwd_result_lists_def)
    next
      case ne: False
      let ?ys = "slice_to (top_k * 2) (sort_desc fwd_score cands)"
      have k: "top_k \<noteq> 0" using c ne fwd_candidates_top_k_0 by blast
      have r': "r = Some ?ys" using r ne by (simp add: rerank_def)
      from "1.prems"(3) r' consider "xs = ?ys"
        | y where "y \<in> set ?ys" "xs \<in> set (fwd_tree_lists y)"
        by (auto simp: fwd_result_lists_def)
      then show ?thesis
      proof cases
        case 1
        then show ?thesis using P ne k by simp
      next
        case 2
        have "y \<in> set cands" using 2(1) set_slice_to [of "top_k * 2"] by fastforce
        from fwd_candidates_elem [OF c this] obtain connections ch next_layer readers reader
          where e: "neuron_get_connected_reschannels m layer neuron = Inr connections"
            "ch \<in> set (slice_to top_k (sort_desc (\<lambda>x. \<bar>ch_weight x\<bar>) (conn_out connections)))"
            "next_layer \<in> set [layer + 1 .. int (length m) - 1]"
            "find_neurons_reading_channel m next_layer (channel_id ch) top_k = Inr readers"
            "reader \<in> set readers"
            "trace_from_neuron_fwd m top_k next_layer (neuron_id reader) (d - 1) = Inr (children y)"
          by blast
        have "xs \<in> set (fwd_result_lists (children y))"
          using 2(2) by (simp add: fwd_tree_lists_children)
        then show ?thesis
          by (rule "1.IH" [OF False e(1) refl e(2) e(3) e(4) e(5) P e(6)])
      qed
    qed
  qed
qed

lemma bwd_lists_invariant:
  "\<forall>cands. cands \<noteq> [] \<longrightarrow> top_k \<noteq> 0 \<longrightarrow>
      P (slice_to (top_k * 2) (sort_desc bwd_score cands)) \<Longrightarrow>
   trace_from_neuron_bwd m top_k layer neuron d = Inr r \<Longrightarrow>
   xs \<in> set (bwd_result_lists r) \<Longrightarrow> P xs"
proof (induction m top_k layer neuron d arbitrary: r xs rule: trace_from_neuron_bwd.induct)
  case (1 m top_k layer neuron d)
  note P = "1.prems"(1)
  show ?case
  proof (cases "d = 0 \<or> layer \<le> 0")
    case True
    then have "r = None" using "1.prems"(2) by (simp add: bwd_terminal)
    then show ?thesis using "1.prems"(3) by (simp add: bwd_result_lists_def)
  next
    case False
    then obtain cands where c: "bwd_candidates m top_k layer neuron d = Inr cands"
      and r: "r = rerank bwd_score top_k cands"
      using "1.prems"(2) by (auto simp: trace_from_neuron_bwd_unfold bind_result_eq_Inr)
    show ?thesis
    proof (cases "cands = []")
      case True
      then show ?thesis using r "1.prems"(3) by (simp add: rerank_def bwd_result_lists_def)
    next
      case ne: False
      let ?ys = "slice_to (top_k * 2) (sort_desc bwd_score cands)"
      have k: "top_k \<noteq> 0" using c ne bwd_candidates_top_k_0 by blast
      have r': "r = Some ?ys" using r ne by (simp add: rerank_def)
      from "1.prems"(3) r' consider "xs = ?ys"
        | y where "y \<in> set ?ys" "xs \<in> set (bwd_tree_lists y)"
        by (auto simp: bwd_result_lists_def)
      then show ?thesis
      proof cases
        case 1
        then show ?thesis using P ne k by simp
      next
        case 2
        have "y \<in> set cands" using 2(1) set_slice_to [of "top_k * 2"] by fastforce
        from bwd_candidates_elem [OF c this] obtain connections ch prev_layer writers writer
          where e: "neuron_get_connected_reschannels m layer neuron = Inr connections"
            "ch \<in> set (slice_to top_k (sort_desc (\<lambda>x. \<bar>ch_weight x\<bar>) (conn_in connections)))"
            "prev_layer \<in> set (rev [0 .. layer - 1])"
            "find_neurons_writing_channel m prev_layer (channel_id ch) top_k = Inr writers"
            "writer \<in> set writers"
            "trace_from_neuron_bwd m top_k prev_layer (neuron_id writer) (d - 1) = Inr (parents y)"
          by blast
        have "xs \<in> set (bwd_result_lists (parents y))"
          using 2(2) by (simp add: bwd_tree_lists_parents)
        then show ?thesis
          by (rule "1.IH" [OF False e(1) refl e(2) e(3) e(4) e(5) P e(6)])
      qed
    qed
  qed
qed

lemma cut_ranked_slice:
  "cut_ranked score top_k (slice_to (top_k * 2) (sort_desc score cands))"
  unfolding cut_ranked_def
  by (auto intro: sorted_wrt_slice_to descending_sort_desc simp: length_slice_to)

lemma sorted_take_drop:
  assumes "sorted_wrt (\<lambda>a b. f b \<le> f a) xs" "x \<in> set (take n xs)" "y \<in> set (drop n xs)"
  shows "f y \<le> f x"
proof -
  have "sorted_wrt (\<lambda>a b. f b \<le> f a) (take n xs @ drop n xs)" using assms(1) by simp
  then show ?thesis using assms(2,3) unfolding sorted_wrt_append by blast
qed

lemma rerank_Some:
  "rerank score top_k cands = Some xs \<longleftrightarrow>
   cands \<noteq> [] \<and> xs = slice_to (top_k * 2) (sort_desc score cands)"
  by (auto simp: rerank_def)

lemma or_empty_lists:
  "xs \<in> set (fwd_result_lists (Some (or_empty r))) \<Longrightarrow>
   xs = [] \<or> xs \<in> set (fwd_result_lists r)"
  by (cases r) (auto simp: or_empty_def fwd_result_lists_def)

lemma or_empty_lists_bwd:
  "xs \<in> set (bwd_result_lists (Some (or_empty r))) \<Longrightarrow>
   xs = [] \<or> xs \<in> set (bwd_result_lists r)"
  by (cases r) (auto simp: or_empty_def bwd_result_lists_def)

lemma cut_ranked_Nil: "cut_ranked score top_k []"
  by (simp add: cut_ranked_def)

text \<open>
  C1, as the code has it. Whenever an expansion returns a list (forward or backward), the
  list is the candidate list sorted stably by descending
  \<open>|write_weight| * |read_weight|\<close> and sliced with \<^verbatim>\<open>[: top_k * 2]\<close>; it is in
  non-increasing order of that product for every \<open>top_k\<close>. For \<open>top_k \<ge> 0\<close> it is the
  first \<open>2 * top_k\<close> entries of the sorted candidates, so it has at most \<open>2 * top_k\<close>
  entries and no dropped candidate has a larger product than a kept one. The order
  and the bound hold for every list of the returned tree, at the top level too.
\<close>

theorem rerank_cut:
  fixes m :: "'w::{zero,abs,times,linorder} layers"
  shows
  "(\<forall>xs. trace_from_neuron_fwd m top_k layer neuron depth = Inr (Some xs) \<longrightarrow>
      (\<exists>cands. fwd_candidates m top_k layer neuron depth = Inr cands \<and>
         xs = slice_to (top_k * 2) (sort_desc fwd_score cands) \<and>
         (0 \<le> top_k \<longrightarrow>
            xs = take (nat (2 * top_k)) (sort_desc fwd_score cands) \<and>
            (\<forall>x\<in>set xs. \<forall>y\<in>set (drop (nat (2 * top_k)) (sort_desc fwd_score cands)).
               fwd_score y \<le> fwd_score x)))) \<and>
   (\<forall>xs. trace_from_neuron_bwd m top_k layer neuron depth = Inr (Some xs) \<longrightarrow>
      (\<exists>cands. bwd_candidates m top_k layer neuron depth = Inr cands \<and>
         xs = slice_to (top_k * 2) (sort_desc bwd_score cands) \<and>
         (0 \<le> top_k \<longrightarrow>
            xs = take (nat (2 * top_k)) (sort_desc bwd_score cands) \<and>
            (\<forall>x\<in>set xs. \<forall>y\<in>set (drop (nat (2 * top_k)) (sort_desc bwd_score cands)).
               bwd_score y \<le> bwd_score x)))) \<and>
   (\<forall>ys. trace_circuit_forward m layer neuron depth top_k = Inr ys \<longrightarrow>
      (\<forall>xs\<in>set (fwd_result_lists (Some ys)). cut_ranked fwd_score top_k xs)) \<and>
   (\<forall>ys. trace_circuit_backward m layer neuron depth top_k = Inr ys \<longrightarrow>
      (\<forall>xs\<in>set (bwd_result_lists (Some ys)). cut_ranked bwd_score top_k xs))"
proof (intro conjI allI impI)
  fix xs
  assume a: "trace_from_neuron_fwd m top_k layer neuron depth = Inr (Some xs)"
  then obtain cands where c: "fwd_candidates m top_k layer neuron depth = Inr cands"
    and x: "xs = slice_to (top_k * 2) (sort_desc fwd_score cands)"
    by (auto simp: trace_from_neuron_fwd_unfold bind_result_eq_Inr rerank_Some
        split: if_splits)
  have "0 \<le> top_k \<longrightarrow>
          xs = take (nat (2 * top_k)) (sort_desc fwd_score cands) \<and>
          (\<forall>x\<in>set xs. \<forall>y\<in>set (drop (nat (2 * top_k)) (sort_desc fwd_score cands)).
             fwd_score y \<le> fwd_score x)"
    using x sorted_take_drop [OF descending_sort_desc, of _ "nat (2 * top_k)" fwd_score cands]
    by (auto simp: slice_to_def mult.commute)
  with c x show "\<exists>cands. fwd_candidates m top_k layer neuron depth = Inr cands \<and>
         xs = slice_to (top_k * 2) (sort_desc fwd_score cands) \<and>
         (0 \<le> top_k \<longrightarrow>
            xs = take (nat (2 * top_k)) (sort_desc fwd_score cands) \<and>
            (\<forall>x\<in>set xs. \<forall>y\<in>set (drop (nat (2 * top_k)) (sort_desc fwd_score cands)).
               fwd_score y \<le> fwd_score x))"
    by blast
next
  fix xs
  assume a: "trace_from_neuron_bwd m top_k layer neuron depth = Inr (Some xs)"
  then obtain cands where c: "bwd_candidates m top_k layer neuron depth = Inr cands"
    and x: "xs = slice_to (top_k * 2) (sort_desc bwd_score cands)"
    by (auto simp: trace_from_neuron_bwd_unfold bind_result_eq_Inr rerank_Some
        split: if_splits)
  have "0 \<le> top_k \<longrightarrow>
          xs = take (nat (2 * top_k)) (sort_desc bwd_score cands) \<and>
          (\<forall>x\<in>set xs. \<forall>y\<in>set (drop (nat (2 * top_k)) (sort_desc bwd_score cands)).
             bwd_score y \<le> bwd_score x)"
    using x sorted_take_drop [OF descending_sort_desc, of _ "nat (2 * top_k)" bwd_score cands]
    by (auto simp: slice_to_def mult.commute)
  with c x show "\<exists>cands. bwd_candidates m top_k layer neuron depth = Inr cands \<and>
         xs = slice_to (top_k * 2) (sort_desc bwd_score cands) \<and>
         (0 \<le> top_k \<longrightarrow>
            xs = take (nat (2 * top_k)) (sort_desc bwd_score cands) \<and>
            (\<forall>x\<in>set xs. \<forall>y\<in>set (drop (nat (2 * top_k)) (sort_desc bwd_score cands)).
               bwd_score y \<le> bwd_score x))"
    by blast
next
  fix ys
  assume "trace_circuit_forward m layer neuron depth top_k = Inr ys"
  then obtain r where r: "trace_from_neuron_fwd m top_k layer neuron depth = Inr r"
    and ys: "ys = or_empty r"
    by (auto simp: trace_circuit_forward_def bind_result_eq_Inr)
  have "cut_ranked fwd_score top_k xs" if "xs \<in> set (fwd_result_lists r)" for xs
    by (rule fwd_lists_invariant [OF _ r that]) (simp add: cut_ranked_slice)
  then show "\<forall>xs\<in>set (fwd_result_lists (Some ys)). cut_ranked fwd_score top_k xs"
    using or_empty_lists [of _ r] ys cut_ranked_Nil by blast
next
  fix ys
  assume "trace_circuit_backward m layer neuron depth top_k = Inr ys"
  then obtain r where r: "trace_from_neuron_bwd m top_k layer neuron depth = Inr r"
    and ys: "ys = or_empty r"
    by (auto simp: trace_circuit_backward_def bind_result_eq_Inr)
  have "cut_ranked bwd_score top_k xs" if "xs \<in> set (bwd_result_lists r)" for xs
    by (rule bwd_lists_invariant [OF _ r that]) (simp add: cut_ranked_slice)
  then show "\<forall>xs\<in>set (bwd_result_lists (Some ys)). cut_ranked bwd_score top_k xs"
    using or_empty_lists_bwd [of _ r] ys cut_ranked_Nil by blast
qed

text \<open>
  The theorem at neuron \<open>2\<close> of layer \<open>0\<close> (forward) and neuron \<open>0\<close> of layer \<open>3\<close>
  (backward) with \<open>top_k = 3\<close>: nine candidates each, of which six are kept.
\<close>

theorem rerank_cut_witness:
  "trace_from_neuron_fwd example_layers 3 0 2 1 =
     Inr (Some [FwdNode 1 0 3 0 (- 5) None, FwdNode 1 1 (- 3) 0 (- 5) None,
                FwdNode 2 0 3 0 (- 5) None, FwdNode 2 1 (- 3) 0 (- 5) None,
                FwdNode 3 0 3 0 (- 5) None, FwdNode 3 1 (- 3) 0 (- 5) None]) \<and>
   fwd_candidates example_layers 3 0 2 1 =
     Inr [FwdNode 1 0 3 0 (- 5) None, FwdNode 1 1 (- 3) 0 (- 5) None,
          FwdNode 1 3 1 0 (- 5) None, FwdNode 2 0 3 0 (- 5) None,
          FwdNode 2 1 (- 3) 0 (- 5) None, FwdNode 2 3 1 0 (- 5) None,
          FwdNode 3 0 3 0 (- 5) None, FwdNode 3 1 (- 3) 0 (- 5) None,
          FwdNode 3 3 1 0 (- 5) None] \<and>
   (0::int) \<le> 3 \<and>
   [FwdNode 1 0 3 0 (- 5) None, FwdNode 1 1 (- 3) 0 (- 5) None,
    FwdNode 2 0 3 0 (- 5) None, FwdNode 2 1 (- 3) 0 (- 5) None,
    FwdNode 3 0 3 0 (- 5) None, FwdNode 3 1 (- 3) 0 (- 5) None] =
     take (nat (2 * 3))
       (sort_desc fwd_score
          [FwdNode 1 0 3 0 (- 5) None, FwdNode 1 1 (- 3) 0 (- 5) None,
           FwdNode 1 3 1 0 (- 5) None, FwdNode 2 0 3 0 (- 5) None,
           FwdNode 2 1 (- 3) 0 (- 5) None, FwdNode 2 3 1 0 (- 5) None,
           FwdNode 3 0 3 0 (- 5) None, FwdNode 3 1 (- 3) 0 (- 5) None,
           FwdNode 3 3 1 0 (- 5::int) None]) \<and>
   trace_from_neuron_bwd example_layers 3 3 0 1 =
     Inr (Some [BwdNode 2 2 (- 5) 0 3 None, BwdNode 1 2 (- 5) 0 3 None,
                BwdNode 0 2 (- 5) 0 3 None, BwdNode 2 1 2 0 3 None,
                BwdNode 2 3 2 0 3 None, BwdNode 1 1 2 0 3 None]) \<and>
   trace_circuit_forward example_layers 0 2 1 3 =
     Inr [FwdNode 1 0 3 0 (- 5) None, FwdNode 1 1 (- 3) 0 (- 5) None,
          FwdNode 2 0 3 0 (- 5) None, FwdNode 2 1 (- 3) 0 (- 5) None,
          FwdNode 3 0 3 0 (- 5) None, FwdNode 3 1 (- 3) 0 (- 5) None] \<and>
   cut_ranked fwd_score 3
     [FwdNode 1 0 3 0 (- 5) None, FwdNode 1 1 (- 3) 0 (- 5) None,
      FwdNode 2 0 3 0 (- 5) None, FwdNode 2 1 (- 3) 0 (- 5) None,
      FwdNode 3 0 3 0 (- 5) None, FwdNode 3 1 (- 3) 0 (- 5::int) None] \<and>
   trace_circuit_backward example_layers 3 0 1 3 =
     Inr [BwdNode 2 2 (- 5) 0 3 None, BwdNode 1 2 (- 5) 0 3 None,
          BwdNode 0 2 (- 5) 0 3 None, BwdNode 2 1 2 0 3 None,
          BwdNode 2 3 2 0 3 None, BwdNode 1 1 2 0 3 None] \<and>
   cut_ranked bwd_score 3
     [BwdNode 2 2 (- 5) 0 3 None, BwdNode 1 2 (- 5) 0 3 None,
      BwdNode 0 2 (- 5) 0 3 None, BwdNode 2 1 2 0 3 None,
      BwdNode 2 3 2 0 3 None, BwdNode 1 1 2 0 (3::int) None]"
proof -
  let ?F6 = "[FwdNode 1 0 3 0 (- 5) None, FwdNode 1 1 (- 3) 0 (- 5) None,
              FwdNode 2 0 3 0 (- 5) None, FwdNode 2 1 (- 3) 0 (- 5) None,
              FwdNode 3 0 3 0 (- 5) None, FwdNode 3 1 (- 3) 0 (- 5::int) None]"
  let ?F9 = "[FwdNode 1 0 3 0 (- 5) None, FwdNode 1 1 (- 3) 0 (- 5) None,
              FwdNode 1 3 1 0 (- 5) None, FwdNode 2 0 3 0 (- 5) None,
              FwdNode 2 1 (- 3) 0 (- 5) None, FwdNode 2 3 1 0 (- 5) None,
              FwdNode 3 0 3 0 (- 5) None, FwdNode 3 1 (- 3) 0 (- 5) None,
              FwdNode 3 3 1 0 (- 5::int) None]"
  let ?B6 = "[BwdNode 2 2 (- 5) 0 3 None, BwdNode 1 2 (- 5) 0 3 None,
              BwdNode 0 2 (- 5) 0 3 None, BwdNode 2 1 2 0 3 None,
              BwdNode 2 3 2 0 3 None, BwdNode 1 1 2 0 (3::int) None]"
  have f: "trace_from_neuron_fwd example_layers 3 0 2 1 = Inr (Some ?F6)"
    by code_simp
  have c: "fwd_candidates example_layers 3 0 2 1 = Inr ?F9"
    by code_simp
  have b: "trace_from_neuron_bwd example_layers 3 3 0 1 = Inr (Some ?B6)"
    by code_simp
  have tf: "trace_circuit_forward example_layers 0 2 1 3 = Inr ?F6"
    by code_simp
  have tb: "trace_circuit_backward example_layers 3 0 1 3 = Inr ?B6"
    by code_simp
  have le: "(0::int) \<le> 3" by simp
  note t1 = rerank_cut [where m = example_layers and top_k = 3 and depth = 1
      and layer = 0 and neuron = 2]
  note t2 = rerank_cut [where m = example_layers and top_k = 3 and depth = 1
      and layer = 3 and neuron = 0]
  from t1 f have "\<exists>cands. fwd_candidates example_layers 3 0 2 1 = Inr cands \<and>
      (0 \<le> (3::int) \<longrightarrow> ?F6 = take (nat (2 * 3)) (sort_desc fwd_score cands))"
    by blast
  then obtain cands where "fwd_candidates example_layers 3 0 2 1 = Inr cands"
    and k: "?F6 = take (nat (2 * 3)) (sort_desc fwd_score cands)"
    using le by blast
  then have e: "cands = ?F9" unfolding c by blast
  have k': "?F6 = take (nat (2 * 3)) (sort_desc fwd_score ?F9)"
    unfolding e [symmetric] by (fact k)
  have "?F6 \<in> set (fwd_result_lists (Some ?F6))"
    unfolding fwd_result_lists_def option.case by (rule list.set_intros(1))
  with t1 tf have rf: "cut_ranked fwd_score 3 ?F6" by blast
  have "?B6 \<in> set (bwd_result_lists (Some ?B6))"
    unfolding bwd_result_lists_def option.case by (rule list.set_intros(1))
  with t2 tb have rb: "cut_ranked bwd_score 3 ?B6" by blast
  show ?thesis
    by (intro conjI) (fact f c le k' b tf rf tb rb)+
qed

text \<open>
  With \<open>top_k = -1\<close> the cut \<^verbatim>\<open>result[:-2]\<close> keeps two of four candidates: more than
  \<open>2 * top_k\<close> entries, and not the top \<open>2 * top_k\<close> of anything.
\<close>

theorem negative_top_k_cut_counterexample:
  "trace_circuit_forward ones_layers 0 0 1 (- 1) =
     Inr [FwdNode 1 0 1 0 1 None, FwdNode 2 0 1 0 1 None] \<and>
   \<not> int (length [FwdNode 1 0 1 0 1 None, FwdNode 2 0 1 0 (1::int) None]) \<le> 2 * (- 1) \<and>
   trace_circuit_backward ones_layers 2 0 1 (- 1) =
     Inr [BwdNode 1 0 1 0 1 None, BwdNode 0 0 1 0 1 None]"
  by code_simp

lemma slice_to_nonempty: "0 < k \<Longrightarrow> xs \<noteq> [] \<Longrightarrow> slice_to k xs \<noteq> []"
  by (cases xs) (auto simp: slice_to_def)

lemma fwd_candidates_Nil:
  "fwd_candidates m top_k layer neuron d = Inr [] \<Longrightarrow>
   trace_from_neuron_fwd m top_k layer neuron d = Inr None"
  by (simp add: trace_from_neuron_fwd_unfold rerank_def)

lemma bwd_candidates_Nil:
  "bwd_candidates m top_k layer neuron d = Inr [] \<Longrightarrow>
   trace_from_neuron_bwd m top_k layer neuron d = Inr None"
  by (simp add: trace_from_neuron_bwd_unfold rerank_def)

lemma fwd_lists_nonempty:
  assumes "0 \<le> top_k" "trace_from_neuron_fwd m top_k layer neuron d = Inr r"
    "xs \<in> set (fwd_result_lists r)"
  shows "xs \<noteq> []"
proof (rule fwd_lists_invariant [OF _ assms(2,3)], intro allI impI)
  fix cands :: "'a fwd_node list"
  assume "cands \<noteq> []" "top_k \<noteq> 0"
  then show "slice_to (top_k * 2) (sort_desc fwd_score cands) \<noteq> []"
    using assms(1) by (intro slice_to_nonempty) auto
qed

lemma bwd_lists_nonempty:
  assumes "0 \<le> top_k" "trace_from_neuron_bwd m top_k layer neuron d = Inr r"
    "xs \<in> set (bwd_result_lists r)"
  shows "xs \<noteq> []"
proof (rule bwd_lists_invariant [OF _ assms(2,3)], intro allI impI)
  fix cands :: "'a bwd_node list"
  assume "cands \<noteq> []" "top_k \<noteq> 0"
  then show "slice_to (top_k * 2) (sort_desc bwd_score cands) \<noteq> []"
    using assms(1) by (intro slice_to_nonempty) auto
qed

lemma or_empty_member_fwd:
  "x \<in> set (or_empty r) \<Longrightarrow> xs \<in> set (fwd_tree_lists x) \<Longrightarrow> xs \<in> set (fwd_result_lists r)"
  by (cases r) (auto simp: or_empty_def fwd_result_lists_def split: if_splits)

lemma or_empty_member_bwd:
  "x \<in> set (or_empty r) \<Longrightarrow> xs \<in> set (bwd_tree_lists x) \<Longrightarrow> xs \<in> set (bwd_result_lists r)"
  by (cases r) (auto simp: or_empty_def bwd_result_lists_def split: if_splits)

text \<open>
  C10, as the code has it. An expansion returns \<open>None\<close> when a terminal condition holds
  and when its candidate list is empty, and only the outermost call turns \<open>None\<close> into
  the empty list. For \<open>top_k \<ge> 0\<close> no \<open>children\<close> (\<open>parents\<close>) field anywhere in a
  returned tree holds the empty list: each holds \<open>None\<close> or a non-empty list.
\<close>

theorem nested_fields_null:
  fixes m :: "'w::{zero,abs,times,linorder} layers"
  shows
  "(depth = 0 \<or> int (length m) - 1 \<le> layer \<longrightarrow>
      trace_from_neuron_fwd m top_k layer neuron depth = Inr None) \<and>
   (fwd_candidates m top_k layer neuron depth = Inr [] \<longrightarrow>
      trace_from_neuron_fwd m top_k layer neuron depth = Inr None) \<and>
   (trace_from_neuron_fwd m top_k layer neuron depth = Inr None \<longrightarrow>
      trace_circuit_forward m layer neuron depth top_k = Inr []) \<and>
   (0 \<le> top_k \<longrightarrow>
      (\<forall>ys. trace_circuit_forward m layer neuron depth top_k = Inr ys \<longrightarrow>
         (\<forall>x\<in>set ys. \<forall>xs\<in>set (fwd_tree_lists x). xs \<noteq> []))) \<and>
   (depth = 0 \<or> layer \<le> 0 \<longrightarrow>
      trace_from_neuron_bwd m top_k layer neuron depth = Inr None) \<and>
   (bwd_candidates m top_k layer neuron depth = Inr [] \<longrightarrow>
      trace_from_neuron_bwd m top_k layer neuron depth = Inr None) \<and>
   (trace_from_neuron_bwd m top_k layer neuron depth = Inr None \<longrightarrow>
      trace_circuit_backward m layer neuron depth top_k = Inr []) \<and>
   (0 \<le> top_k \<longrightarrow>
      (\<forall>ys. trace_circuit_backward m layer neuron depth top_k = Inr ys \<longrightarrow>
         (\<forall>x\<in>set ys. \<forall>xs\<in>set (bwd_tree_lists x). xs \<noteq> [])))"
proof -
  have f: "xs \<noteq> []"
    if "0 \<le> top_k" "trace_circuit_forward m layer neuron depth top_k = Inr ys"
      "x \<in> set ys" "xs \<in> set (fwd_tree_lists x)" for ys x xs
  proof -
    from that(2) obtain r where r: "trace_from_neuron_fwd m top_k layer neuron depth = Inr r"
      and ys: "ys = or_empty r"
      by (auto simp: trace_circuit_forward_def bind_result_eq_Inr)
    from that(3,4) ys have "xs \<in> set (fwd_result_lists r)"
      by (auto intro: or_empty_member_fwd)
    then show ?thesis by (rule fwd_lists_nonempty [OF that(1) r])
  qed
  have b: "xs \<noteq> []"
    if "0 \<le> top_k" "trace_circuit_backward m layer neuron depth top_k = Inr ys"
      "x \<in> set ys" "xs \<in> set (bwd_tree_lists x)" for ys x xs
  proof -
    from that(2) obtain r where r: "trace_from_neuron_bwd m top_k layer neuron depth = Inr r"
      and ys: "ys = or_empty r"
      by (auto simp: trace_circuit_backward_def bind_result_eq_Inr)
    from that(3,4) ys have "xs \<in> set (bwd_result_lists r)"
      by (auto intro: or_empty_member_bwd)
    then show ?thesis by (rule bwd_lists_nonempty [OF that(1) r])
  qed
  have t: "trace_from_neuron_fwd m top_k layer neuron depth = Inr None \<longrightarrow>
      trace_circuit_forward m layer neuron depth top_k = Inr []"
    "trace_from_neuron_bwd m top_k layer neuron depth = Inr None \<longrightarrow>
      trace_circuit_backward m layer neuron depth top_k = Inr []"
    by (simp_all add: trace_circuit_forward_def trace_circuit_backward_def or_empty_def)
  show ?thesis
    using f b t fwd_terminal [of depth m layer top_k neuron]
      bwd_terminal [of depth layer m top_k neuron]
      fwd_candidates_Nil [of m top_k layer neuron depth]
      bwd_candidates_Nil [of m top_k layer neuron depth]
    by blast
qed

text \<open>
  With \<open>top_k = -1\<close> and depth \<open>2\<close> the first node of the result has two candidates
  below it, and the cut \<^verbatim>\<open>result[:-2]\<close> leaves the empty list in its field.
\<close>

theorem negative_top_k_empty_field_counterexample:
  "trace_circuit_forward ones_layers 0 0 2 (- 1) =
     Inr [FwdNode 1 0 1 0 1 (Some []), FwdNode 2 0 1 0 1 None] \<and>
   trace_circuit_backward ones_layers 2 0 2 (- 1) =
     Inr [BwdNode 1 0 1 0 1 (Some []), BwdNode 0 0 1 0 1 None]"
  by code_simp

text \<open>
  The theorem at a neuron without outgoing (incoming) connections, whose candidate
  list is empty, and at \<open>top_k = 2\<close>, where the tree has a nested non-empty list.
\<close>

theorem nested_fields_null_witness:
  "(0::int) \<le> 2 \<and>
   fwd_candidates example_layers 2 0 0 2 = Inr [] \<and>
   trace_from_neuron_fwd example_layers 2 0 0 2 = Inr None \<and>
   trace_circuit_forward example_layers 0 0 2 2 = Inr [] \<and>
   bwd_candidates example_layers 2 1 2 2 = Inr [] \<and>
   trace_from_neuron_bwd example_layers 2 1 2 2 = Inr None \<and>
   trace_circuit_backward example_layers 1 2 2 2 = Inr [] \<and>
   trace_circuit_forward example_layers 1 2 2 2 =
     Inr [FwdNode 2 0 3 0 (- 5) None,
          FwdNode 2 1 (- 3) 0 (- 5)
            (Some [FwdNode 3 0 3 0 2 None, FwdNode 3 1 (- 3) 0 2 None]),
          FwdNode 3 0 3 0 (- 5) None, FwdNode 3 1 (- 3) 0 (- 5) None]"
proof -
  have c: "fwd_candidates example_layers 2 0 0 2 = Inr []"
    by code_simp
  have d: "bwd_candidates example_layers 2 1 2 2 = Inr []"
    by code_simp
  have v: "trace_circuit_forward example_layers 1 2 2 2 =
     Inr [FwdNode 2 0 3 0 (- 5) None,
          FwdNode 2 1 (- 3) 0 (- 5)
            (Some [FwdNode 3 0 3 0 2 None, FwdNode 3 1 (- 3) 0 2 None]),
          FwdNode 3 0 3 0 (- 5) None, FwdNode 3 1 (- 3) 0 (- 5) None]"
    by code_simp
  have le: "(0::int) \<le> 2" by simp
  note t1 = nested_fields_null [where m = example_layers and top_k = 2 and depth = 2
      and layer = 0 and neuron = 0]
  note t2 = nested_fields_null [where m = example_layers and top_k = 2 and depth = 2
      and layer = 1 and neuron = 2]
  from t1 c have f1: "trace_from_neuron_fwd example_layers 2 0 0 2 = Inr None" by blast
  with t1 have f2: "trace_circuit_forward example_layers 0 0 2 2 = Inr []" by blast
  from t2 d have b1: "trace_from_neuron_bwd example_layers 2 1 2 2 = Inr None" by blast
  with t2 have b2: "trace_circuit_backward example_layers 1 2 2 2 = Inr []" by blast
  show ?thesis
    by (intro conjI) (fact le c f1 f2 d b1 b2 v)+
qed

lemma fwd_limited_eq:
  "max 1 (nat (int (length m) - layer)) \<le> fuel \<Longrightarrow>
   trace_from_neuron_fwd_limited fuel m top_k layer neuron d =
   trace_from_neuron_fwd m top_k layer neuron d"
proof (induction fuel arbitrary: layer neuron d)
  case 0
  then show ?case by simp
next
  case (Suc fuel)
  show ?case
  proof (cases "d = 0 \<or> int (length m) - 1 \<le> layer")
    case True
    then show ?thesis by (simp add: fwd_terminal)
  next
    case False
    have ih: "trace_from_neuron_fwd_limited fuel m top_k next_layer n (d - 1) =
              trace_from_neuron_fwd m top_k next_layer n (d - 1)"
      if "layer + 1 \<le> next_layer" "next_layer \<le> int (length m) - 1" for next_layer n
      using Suc.prems False that by (intro Suc.IH) linarith
    show ?thesis
      apply (subst trace_from_neuron_fwd.simps)
      apply (simp only: trace_from_neuron_fwd_limited.simps False if_False Let_def)
      apply (intro bind_result_cong concat_map_result_cong map_result_cong refl)
      apply (rule ih; simp)
      done
  qed
qed

lemma neuron_get_connected_reschannels_beyond:
  "int (length m) \<le> layer \<Longrightarrow> neuron_get_connected_reschannels m layer neuron = Inl IndexError"
  by (simp add: neuron_get_connected_reschannels_cases valid_index_def)

lemma bwd_limited_eq:
  "max 1 (nat (min layer (int (length m) - 1)) + 1) \<le> fuel \<Longrightarrow>
   trace_from_neuron_bwd_limited fuel m top_k layer neuron d =
   trace_from_neuron_bwd m top_k layer neuron d"
proof (induction fuel arbitrary: layer neuron d)
  case 0
  then show ?case by simp
next
  case (Suc fuel)
  show ?case
  proof (cases "d = 0 \<or> layer \<le> 0")
    case True
    then show ?thesis by (simp add: bwd_terminal)
  next
    case False
    show ?thesis
    proof (cases "int (length m) \<le> layer")
      case True
      then show ?thesis
        by (subst trace_from_neuron_bwd.simps)
           (simp add: False neuron_get_connected_reschannels_beyond)
    next
      case inside: False
      have ih: "trace_from_neuron_bwd_limited fuel m top_k prev_layer n (d - 1) =
                trace_from_neuron_bwd m top_k prev_layer n (d - 1)"
        if "0 \<le> prev_layer" "prev_layer \<le> layer - 1" for prev_layer n
        using Suc.prems False inside that by (intro Suc.IH) linarith
      show ?thesis
        apply (subst trace_from_neuron_bwd.simps)
        apply (simp only: trace_from_neuron_bwd_limited.simps False if_False Let_def)
        apply (intro bind_result_cong concat_map_result_cong map_result_cong refl)
        apply (rule ih; simp)
        done
    qed
  qed
qed

lemma bind_result_eq_Inl:
  "bind_result r f = Inl e \<longleftrightarrow> r = Inl e \<or> (\<exists>x. r = Inr x \<and> f x = Inl e)"
  by (cases r) auto

lemma map_result_Inl: "map_result f xs = Inl e \<Longrightarrow> \<exists>x\<in>set xs. f x = Inl e"
  by (induction xs) (auto simp: bind_result_eq_Inl)

lemma concat_map_result_Inl: "concat_map_result f xs = Inl e \<Longrightarrow> \<exists>x\<in>set xs. f x = Inl e"
  by (auto simp: concat_map_result_def bind_result_eq_Inl dest: map_result_Inl)

lemma extractor_errors:
  "neuron_get_connected_reschannels m l i = Inl e \<Longrightarrow> e = IndexError"
  "find_neurons_reading_channel m l i k = Inl e \<Longrightarrow> e = IndexError"
  "find_neurons_writing_channel m l i k = Inl e \<Longrightarrow> e = IndexError"
  by (auto simp: neuron_get_connected_reschannels_cases readers_cases writers_cases Let_def
      split: if_splits)

lemma fwd_error:
  "trace_from_neuron_fwd m top_k layer neuron d = Inl e \<Longrightarrow> e = IndexError"
proof (induction m top_k layer neuron d rule: trace_from_neuron_fwd.induct)
  case (1 m top_k layer neuron d)
  show ?case
  proof (cases "d = 0 \<or> int (length m) - 1 \<le> layer")
    case True
    then show ?thesis using "1.prems" by (simp add: fwd_terminal)
  next
    case False
    from "1.prems" False consider
      "neuron_get_connected_reschannels m layer neuron = Inl e"
      | connections where "neuron_get_connected_reschannels m layer neuron = Inr connections"
        "concat_map_result (\<lambda>ch.
           concat_map_result (\<lambda>next_layer.
             bind_result
               (find_neurons_reading_channel m next_layer (channel_id ch) top_k)
               (map_result (\<lambda>reader.
                  bind_result
                    (trace_from_neuron_fwd m top_k next_layer (neuron_id reader) (d - 1))
                    (\<lambda>kids. Inr (FwdNode next_layer (neuron_id reader) (weight reader)
                                    (channel_id ch) (ch_weight ch) kids)))))
             [layer + 1 .. int (length m) - 1])
           (slice_to top_k (sort_desc (\<lambda>x. \<bar>ch_weight x\<bar>) (conn_out connections))) = Inl e"
      by (subst (asm) trace_from_neuron_fwd.simps)
         (auto simp: bind_result_eq_Inl Let_def)
    then show ?thesis
    proof cases
      case 1
      then show ?thesis by (rule extractor_errors)
    next
      case 2
      from concat_map_result_Inl [OF 2(2)] obtain ch where
        ch: "ch \<in> set (slice_to top_k (sort_desc (\<lambda>x. \<bar>ch_weight x\<bar>) (conn_out connections)))"
        and r2: "concat_map_result (\<lambda>next_layer.
             bind_result
               (find_neurons_reading_channel m next_layer (channel_id ch) top_k)
               (map_result (\<lambda>reader.
                  bind_result
                    (trace_from_neuron_fwd m top_k next_layer (neuron_id reader) (d - 1))
                    (\<lambda>kids. Inr (FwdNode next_layer (neuron_id reader) (weight reader)
                                    (channel_id ch) (ch_weight ch) kids)))))
             [layer + 1 .. int (length m) - 1] = Inl e"
        by blast
      from concat_map_result_Inl [OF r2] obtain next_layer where
        n: "next_layer \<in> set [layer + 1 .. int (length m) - 1]"
        and r3: "bind_result
               (find_neurons_reading_channel m next_layer (channel_id ch) top_k)
               (map_result (\<lambda>reader.
                  bind_result
                    (trace_from_neuron_fwd m top_k next_layer (neuron_id reader) (d - 1))
                    (\<lambda>kids. Inr (FwdNode next_layer (neuron_id reader) (weight reader)
                                    (channel_id ch) (ch_weight ch) kids)))) = Inl e"
        by blast
      from r3 consider "find_neurons_reading_channel m next_layer (channel_id ch) top_k = Inl e"
        | readers where
          "find_neurons_reading_channel m next_layer (channel_id ch) top_k = Inr readers"
          "map_result (\<lambda>reader.
                  bind_result
                    (trace_from_neuron_fwd m top_k next_layer (neuron_id reader) (d - 1))
                    (\<lambda>kids. Inr (FwdNode next_layer (neuron_id reader) (weight reader)
                                    (channel_id ch) (ch_weight ch) kids))) readers = Inl e"
        by (auto simp: bind_result_eq_Inl)
      then show ?thesis
      proof cases
        case 1
        then show ?thesis by (rule extractor_errors)
      next
        case rd: 2
        from map_result_Inl [OF rd(2)] obtain reader where
          "reader \<in> set readers"
          "trace_from_neuron_fwd m top_k next_layer (neuron_id reader) (d - 1) = Inl e"
          by (auto simp: bind_result_eq_Inl)
        then show ?thesis
          using "1.IH" [OF False 2(1) refl ch n rd(1)] by blast
      qed
    qed
  qed
qed

lemma bwd_error:
  "trace_from_neuron_bwd m top_k layer neuron d = Inl e \<Longrightarrow> e = IndexError"
proof (induction m top_k layer neuron d rule: trace_from_neuron_bwd.induct)
  case (1 m top_k layer neuron d)
  show ?case
  proof (cases "d = 0 \<or> layer \<le> 0")
    case True
    then show ?thesis using "1.prems" by (simp add: bwd_terminal)
  next
    case False
    from "1.prems" False consider
      "neuron_get_connected_reschannels m layer neuron = Inl e"
      | connections where "neuron_get_connected_reschannels m layer neuron = Inr connections"
        "concat_map_result (\<lambda>ch.
           concat_map_result (\<lambda>prev_layer.
             bind_result
               (find_neurons_writing_channel m prev_layer (channel_id ch) top_k)
               (map_result (\<lambda>writer.
                  bind_result
                    (trace_from_neuron_bwd m top_k prev_layer (neuron_id writer) (d - 1))
                    (\<lambda>kids. Inr (BwdNode prev_layer (neuron_id writer) (weight writer)
                                    (channel_id ch) (ch_weight ch) kids)))))
             (rev [0 .. layer - 1]))
           (slice_to top_k (sort_desc (\<lambda>x. \<bar>ch_weight x\<bar>) (conn_in connections))) = Inl e"
      by (subst (asm) trace_from_neuron_bwd.simps)
         (auto simp: bind_result_eq_Inl Let_def)
    then show ?thesis
    proof cases
      case 1
      then show ?thesis by (rule extractor_errors)
    next
      case 2
      from concat_map_result_Inl [OF 2(2)] obtain ch where
        ch: "ch \<in> set (slice_to top_k (sort_desc (\<lambda>x. \<bar>ch_weight x\<bar>) (conn_in connections)))"
        and r2: "concat_map_result (\<lambda>prev_layer.
             bind_result
               (find_neurons_writing_channel m prev_layer (channel_id ch) top_k)
               (map_result (\<lambda>writer.
                  bind_result
                    (trace_from_neuron_bwd m top_k prev_layer (neuron_id writer) (d - 1))
                    (\<lambda>kids. Inr (BwdNode prev_layer (neuron_id writer) (weight writer)
                                    (channel_id ch) (ch_weight ch) kids)))))
             (rev [0 .. layer - 1]) = Inl e"
        by blast
      from concat_map_result_Inl [OF r2] obtain prev_layer where
        n: "prev_layer \<in> set (rev [0 .. layer - 1])"
        and r3: "bind_result
               (find_neurons_writing_channel m prev_layer (channel_id ch) top_k)
               (map_result (\<lambda>writer.
                  bind_result
                    (trace_from_neuron_bwd m top_k prev_layer (neuron_id writer) (d - 1))
                    (\<lambda>kids. Inr (BwdNode prev_layer (neuron_id writer) (weight writer)
                                    (channel_id ch) (ch_weight ch) kids)))) = Inl e"
        by blast
      from r3 consider "find_neurons_writing_channel m prev_layer (channel_id ch) top_k = Inl e"
        | writers where
          "find_neurons_writing_channel m prev_layer (channel_id ch) top_k = Inr writers"
          "map_result (\<lambda>writer.
                  bind_result
                    (trace_from_neuron_bwd m top_k prev_layer (neuron_id writer) (d - 1))
                    (\<lambda>kids. Inr (BwdNode prev_layer (neuron_id writer) (weight writer)
                                    (channel_id ch) (ch_weight ch) kids))) writers = Inl e"
        by (auto simp: bind_result_eq_Inl)
      then show ?thesis
      proof cases
        case 1
        then show ?thesis by (rule extractor_errors)
      next
        case rd: 2
        from map_result_Inl [OF rd(2)] obtain writer where
          "writer \<in> set writers"
          "trace_from_neuron_bwd m top_k prev_layer (neuron_id writer) (d - 1) = Inl e"
          by (auto simp: bind_result_eq_Inl)
        then show ?thesis
          using "1.IH" [OF False 2(1) refl ch n rd(1)] by blast
      qed
    qed
  qed
qed

text \<open>
  C9. Both tracers are total functions of all their arguments: the recursion descends
  along \<open>num_layers - layer\<close> (forward) and \<open>layer\<close> (backward), whatever \<open>depth\<close> is,
  also a negative one. The nesting of calls is bounded by the number of layers and not
  by \<open>depth\<close>: a forward trace from a layer \<open>\<ge> 0\<close> and every backward trace run
  unchanged under a recursion limit of \<open>max 1 num_layers\<close> frames (a forward trace from
  any layer under \<open>max 1 (num_layers - layer)\<close>), and never raise \<open>RecursionError\<close>.
\<close>

theorem trace_recursion_bounded:
  fixes m :: "'w::{zero,abs,times,linorder} layers"
  shows
  "(max 1 (nat (int (length m) - layer)) \<le> fuel \<longrightarrow>
      trace_from_neuron_fwd_limited fuel m top_k layer neuron depth =
      trace_from_neuron_fwd m top_k layer neuron depth) \<and>
   (0 \<le> layer \<longrightarrow>
      trace_from_neuron_fwd_limited (max 1 (length m)) m top_k layer neuron depth =
      trace_from_neuron_fwd m top_k layer neuron depth) \<and>
   trace_from_neuron_bwd_limited (max 1 (length m)) m top_k layer neuron depth =
     trace_from_neuron_bwd m top_k layer neuron depth \<and>
   trace_from_neuron_fwd m top_k layer neuron depth \<noteq> Inl RecursionError \<and>
   trace_from_neuron_bwd m top_k layer neuron depth \<noteq> Inl RecursionError"
proof -
  have 1: "trace_from_neuron_fwd_limited (max 1 (length m)) m top_k layer neuron depth =
      trace_from_neuron_fwd m top_k layer neuron depth" if "0 \<le> layer"
    using that by (intro fwd_limited_eq) linarith
  have 2: "trace_from_neuron_bwd_limited (max 1 (length m)) m top_k layer neuron depth =
     trace_from_neuron_bwd m top_k layer neuron depth"
    by (intro bwd_limited_eq) linarith
  have 3: "trace_from_neuron_fwd m top_k layer neuron depth \<noteq> Inl RecursionError"
    "trace_from_neuron_bwd m top_k layer neuron depth \<noteq> Inl RecursionError"
    using fwd_error [of m top_k layer neuron depth RecursionError]
      bwd_error [of m top_k layer neuron depth RecursionError] by auto
  show ?thesis
    using 1 2 3 fwd_limited_eq [of m layer fuel top_k neuron depth] by blast
qed

text \<open>
  The theorem at depth \<open>-1\<close> on the four-layer model: the trace from layer \<open>0\<close> nests
  four frames and is the same under a limit of four.
\<close>

theorem trace_recursion_bounded_witness:
  "max 1 (nat (int (length example_layers) - 0)) \<le> 4 \<and> (0::int) \<le> 0 \<and>
   trace_from_neuron_fwd_limited 4 example_layers 2 0 2 (- 1) =
     Inr (Some
       [FwdNode 1 0 3 0 (- 5) None,
        FwdNode 1 1 (- 3) 0 (- 5)
         (Some
           [FwdNode 2 0 3 0 2 None,
            FwdNode 2 1 (- 3) 0 2
             (Some [FwdNode 3 0 3 0 2 None, FwdNode 3 1 (- 3) 0 2 None]),
            FwdNode 3 0 3 0 2 None, FwdNode 3 1 (- 3) 0 2 None]),
        FwdNode 2 0 3 0 (- 5) None,
        FwdNode 2 1 (- 3) 0 (- 5)
         (Some [FwdNode 3 0 3 0 2 None, FwdNode 3 1 (- 3) 0 2 None])])"
proof -
  have v: "trace_from_neuron_fwd example_layers 2 0 2 (- 1) =
     Inr (Some
       [FwdNode 1 0 3 0 (- 5) None,
        FwdNode 1 1 (- 3) 0 (- 5)
         (Some
           [FwdNode 2 0 3 0 2 None,
            FwdNode 2 1 (- 3) 0 2
             (Some [FwdNode 3 0 3 0 2 None, FwdNode 3 1 (- 3) 0 2 None]),
            FwdNode 3 0 3 0 2 None, FwdNode 3 1 (- 3) 0 2 None]),
        FwdNode 2 0 3 0 (- 5) None,
        FwdNode 2 1 (- 3) 0 (- 5)
         (Some [FwdNode 3 0 3 0 2 None, FwdNode 3 1 (- 3) 0 2 None])])"
    by code_simp
  have h: "max 1 (nat (int (length example_layers) - 0)) \<le> 4"
    by (simp add: example_layers_def)
  have le: "(0::int) \<le> 0" by simp
  from trace_recursion_bounded [where m = example_layers and fuel = 4 and layer = 0
      and top_k = 2 and neuron = 2 and depth = "- 1"] h
  have "trace_from_neuron_fwd_limited 4 example_layers 2 0 2 (- 1) =
        trace_from_neuron_fwd example_layers 2 0 2 (- 1)"
    by blast
  then have l: "trace_from_neuron_fwd_limited 4 example_layers 2 0 2 (- 1) =
     Inr (Some
       [FwdNode 1 0 3 0 (- 5) None,
        FwdNode 1 1 (- 3) 0 (- 5)
         (Some
           [FwdNode 2 0 3 0 2 None,
            FwdNode 2 1 (- 3) 0 2
             (Some [FwdNode 3 0 3 0 2 None, FwdNode 3 1 (- 3) 0 2 None]),
            FwdNode 3 0 3 0 2 None, FwdNode 3 1 (- 3) 0 2 None]),
        FwdNode 2 0 3 0 (- 5) None,
        FwdNode 2 1 (- 3) 0 (- 5)
         (Some [FwdNode 3 0 3 0 2 None, FwdNode 3 1 (- 3) 0 2 None])])"
    unfolding v .
  show ?thesis
    by (intro conjI) (fact h le l)+
qed

lemma map_result_pure:
  "(\<And>x. x \<in> set xs \<Longrightarrow> f x = Inr (g x)) \<Longrightarrow> map_result f xs = Inr (map g xs)"
  by (induction xs) simp_all

lemma concat_map_result_pure:
  "(\<And>x. x \<in> set xs \<Longrightarrow> f x = Inr (g x)) \<Longrightarrow>
   concat_map_result f xs = Inr (concat (map g xs))"
  by (simp add: concat_map_result_def map_result_pure)

lemma wf_model_nth:
  "wf_model m \<Longrightarrow> l < length m \<Longrightarrow>
   shape1 (c_fc (m ! l)) = d_model m \<and> shape0 (c_proj (m ! l)) = d_model m \<and>
   shape1 (c_proj (m ! l)) = shape0 (c_fc (m ! l))"
  by (auto simp: wf_model_def list_all_length wf_layer_def)

lemma connections_in_range:
  assumes "wf_model m" "0 \<le> layer" "layer < int (length m)"
    "0 \<le> neuron" "neuron < int (shape0 (c_fc (m ! nat layer)))"
  shows "neuron_get_connected_reschannels m layer neuron =
           Inr \<lparr>conn_in = in_connections m (nat layer) (nat neuron),
                conn_out = out_connections m (nat layer) (nat neuron)\<rparr>"
proof -
  have "nat layer < length m" using assms(2,3) by simp
  from wf_model_nth [OF assms(1) this]
  have "neuron < int (shape1 (c_proj (m ! nat layer)))" using assms(5) by simp
  then show ?thesis
    using assms
    by (simp add: neuron_get_connected_reschannels_def getitem_in_range select_row_in_range
        select_col_in_range in_connections_def out_connections_def)
qed

lemma nonzero_channels_set:
  "x \<in> set (nonzero_channels ws) \<Longrightarrow>
   ch_weight x \<noteq> 0 \<and> 0 \<le> channel_id x \<and> channel_id x < int (length ws)"
  by (auto simp: nonzero_channels_def in_set_enumerate_eq)

lemma top_channels_out_range:
  "ch \<in> set (top_channels k (out_connections m l i)) \<Longrightarrow>
   0 \<le> channel_id ch \<and> channel_id ch < int (shape0 (c_proj (m ! l)))"
  using set_slice_to [of k] nonzero_channels_set [of ch]
  by (fastforce simp: top_channels_def out_connections_def)

lemma top_channels_in_range:
  "ch \<in> set (top_channels k (in_connections m l i)) \<Longrightarrow>
   0 \<le> channel_id ch \<and> channel_id ch < int (shape1 (c_fc (m ! l)))"
  using set_slice_to [of k] nonzero_channels_set [of ch]
  by (fastforce simp: top_channels_def in_connections_def)

lemma readers_of_range:
  "r \<in> set (readers_of m l c k) \<Longrightarrow>
   0 \<le> neuron_id r \<and> neuron_id r < int (shape0 (c_fc (m ! l)))"
  using set_slice_to [of k] nonzero_neurons_set [of r]
  by (fastforce simp: readers_of_def ranked_neurons_def fc_column_def)

lemma writers_of_range:
  "r \<in> set (writers_of m l c k) \<Longrightarrow>
   0 \<le> neuron_id r \<and> neuron_id r < int (shape1 (c_proj (m ! l)))"
  using set_slice_to [of k] nonzero_neurons_set [of r]
  by (fastforce simp: writers_of_def ranked_neurons_def proj_row_def)

lemma readers_of_channel:
  assumes "wf_model m" "0 \<le> layer" "layer < int (length m)"
    "ch \<in> set (top_channels k (out_connections m (nat layer) i))"
    "0 \<le> next_layer" "next_layer < int (length m)"
  shows "find_neurons_reading_channel m next_layer (channel_id ch) k =
           Inr (readers_of m (nat next_layer) (nat (channel_id ch)) k)"
proof -
  have "nat layer < length m" "nat next_layer < length m" using assms by simp_all
  from wf_model_nth [OF assms(1) this(1)] wf_model_nth [OF assms(1) this(2)]
    top_channels_out_range [OF assms(4)]
  have "0 \<le> channel_id ch \<and> channel_id ch < int (shape1 (c_fc (m ! nat next_layer)))"
    by simp
  then show ?thesis
    using assms(5,6) by (simp add: readers_in_range readers_of_def)
qed

lemma writers_of_channel:
  assumes "wf_model m" "0 \<le> layer" "layer < int (length m)"
    "ch \<in> set (top_channels k (in_connections m (nat layer) i))"
    "0 \<le> prev_layer" "prev_layer < int (length m)"
  shows "find_neurons_writing_channel m prev_layer (channel_id ch) k =
           Inr (writers_of m (nat prev_layer) (nat (channel_id ch)) k)"
proof -
  have "nat layer < length m" "nat prev_layer < length m" using assms by simp_all
  from wf_model_nth [OF assms(1) this(1)] wf_model_nth [OF assms(1) this(2)]
    top_channels_in_range [OF assms(4)]
  have "0 \<le> channel_id ch \<and> channel_id ch < int (shape0 (c_proj (m ! nat prev_layer)))"
    by simp
  then show ?thesis
    using assms(5,6) by (simp add: writers_in_range writers_of_def)
qed

lemma fwd_subtree_eq:
  "trace_from_neuron_fwd m k l i d = Inr r \<Longrightarrow> fwd_subtree m k l i d = r"
  by (simp add: fwd_subtree_def)

lemma bwd_subtree_eq:
  "trace_from_neuron_bwd m k l i d = Inr r \<Longrightarrow> bwd_subtree m k l i d = r"
  by (simp add: bwd_subtree_def)

lemma fwd_candidates_pure:
  assumes wf: "wf_model m" and l: "0 \<le> layer" "layer < int (length m)"
    and i: "0 \<le> neuron" "neuron < int (shape0 (c_fc (m ! nat layer)))"
    and rec: "\<And>ch next_layer r.
       ch \<in> set (top_channels top_k (out_connections m (nat layer) (nat neuron))) \<Longrightarrow>
       next_layer \<in> set [layer + 1 .. int (length m) - 1] \<Longrightarrow>
       r \<in> set (readers_of m (nat next_layer) (nat (channel_id ch)) top_k) \<Longrightarrow>
       \<exists>kids. trace_from_neuron_fwd m top_k next_layer (neuron_id r) (d - 1) = Inr kids"
  shows "fwd_candidates m top_k layer neuron d = Inr (spec_fwd_candidates m top_k layer neuron d)"
proof -
  have inner: "bind_result (find_neurons_reading_channel m next_layer (channel_id ch) top_k)
           (map_result (\<lambda>reader.
              bind_result
                (trace_from_neuron_fwd m top_k next_layer (neuron_id reader) (d - 1))
                (\<lambda>kids. Inr (FwdNode next_layer (neuron_id reader) (weight reader)
                                (channel_id ch) (ch_weight ch) kids)))) =
         Inr (map (\<lambda>r. FwdNode next_layer (neuron_id r) (weight r) (channel_id ch) (ch_weight ch)
                      (fwd_subtree m top_k next_layer (neuron_id r) (d - 1)))
                (readers_of m (nat next_layer) (nat (channel_id ch)) top_k))"
    if ch: "ch \<in> set (top_channels top_k (out_connections m (nat layer) (nat neuron)))"
      and n: "next_layer \<in> set [layer + 1 .. int (length m) - 1]" for ch next_layer
  proof -
    have "0 \<le> next_layer" "next_layer < int (length m)" using n l by auto
    from readers_of_channel [OF wf l ch this]
    have rd: "find_neurons_reading_channel m next_layer (channel_id ch) top_k =
           Inr (readers_of m (nat next_layer) (nat (channel_id ch)) top_k)" .
    have "bind_result (trace_from_neuron_fwd m top_k next_layer (neuron_id r) (d - 1))
            (\<lambda>kids. Inr (FwdNode next_layer (neuron_id r) (weight r)
                            (channel_id ch) (ch_weight ch) kids)) =
          Inr (FwdNode next_layer (neuron_id r) (weight r) (channel_id ch) (ch_weight ch)
                 (fwd_subtree m top_k next_layer (neuron_id r) (d - 1)))"
      if "r \<in> set (readers_of m (nat next_layer) (nat (channel_id ch)) top_k)" for r
      using rec [OF ch n that] by (auto simp: fwd_subtree_def)
    then show ?thesis
      unfolding rd bind_result_simps by (intro map_result_pure)
  qed
  show ?thesis
    unfolding fwd_candidates_def connections_in_range [OF wf l i] bind_result_simps Let_def
      spec_fwd_candidates_def
    apply (simp only: connections.simps top_channels_def [symmetric])
    apply (intro concat_map_result_pure)
    apply (rule inner; assumption)
    done
qed

lemma bwd_candidates_pure:
  assumes wf: "wf_model m" and l: "0 \<le> layer" "layer < int (length m)"
    and i: "0 \<le> neuron" "neuron < int (shape0 (c_fc (m ! nat layer)))"
    and rec: "\<And>ch prev_layer r.
       ch \<in> set (top_channels top_k (in_connections m (nat layer) (nat neuron))) \<Longrightarrow>
       prev_layer \<in> set (rev [0 .. layer - 1]) \<Longrightarrow>
       r \<in> set (writers_of m (nat prev_layer) (nat (channel_id ch)) top_k) \<Longrightarrow>
       \<exists>kids. trace_from_neuron_bwd m top_k prev_layer (neuron_id r) (d - 1) = Inr kids"
  shows "bwd_candidates m top_k layer neuron d = Inr (spec_bwd_candidates m top_k layer neuron d)"
proof -
  have inner: "bind_result (find_neurons_writing_channel m prev_layer (channel_id ch) top_k)
           (map_result (\<lambda>reader.
              bind_result
                (trace_from_neuron_bwd m top_k prev_layer (neuron_id reader) (d - 1))
                (\<lambda>kids. Inr (BwdNode prev_layer (neuron_id reader) (weight reader)
                                (channel_id ch) (ch_weight ch) kids)))) =
         Inr (map (\<lambda>r. BwdNode prev_layer (neuron_id r) (weight r) (channel_id ch) (ch_weight ch)
                      (bwd_subtree m top_k prev_layer (neuron_id r) (d - 1)))
                (writers_of m (nat prev_layer) (nat (channel_id ch)) top_k))"
    if ch: "ch \<in> set (top_channels top_k (in_connections m (nat layer) (nat neuron)))"
      and n: "prev_layer \<in> set (rev [0 .. layer - 1])" for ch prev_layer
  proof -
    have "0 \<le> prev_layer" "prev_layer < int (length m)" using n l by auto
    from writers_of_channel [OF wf l ch this]
    have rd: "find_neurons_writing_channel m prev_layer (channel_id ch) top_k =
           Inr (writers_of m (nat prev_layer) (nat (channel_id ch)) top_k)" .
    have "bind_result (trace_from_neuron_bwd m top_k prev_layer (neuron_id r) (d - 1))
            (\<lambda>kids. Inr (BwdNode prev_layer (neuron_id r) (weight r)
                            (channel_id ch) (ch_weight ch) kids)) =
          Inr (BwdNode prev_layer (neuron_id r) (weight r) (channel_id ch) (ch_weight ch)
                 (bwd_subtree m top_k prev_layer (neuron_id r) (d - 1)))"
      if "r \<in> set (writers_of m (nat prev_layer) (nat (channel_id ch)) top_k)" for r
      using rec [OF ch n that] by (auto simp: bwd_subtree_def)
    then show ?thesis
      unfolding rd bind_result_simps by (intro map_result_pure)
  qed
  show ?thesis
    unfolding bwd_candidates_def connections_in_range [OF wf l i] bind_result_simps Let_def
      spec_bwd_candidates_def
    apply (simp only: connections.simps top_channels_def [symmetric])
    apply (intro concat_map_result_pure)
    apply (rule inner; assumption)
    done
qed

lemma fwd_succeeds:
  "wf_model m \<Longrightarrow> 0 \<le> layer \<Longrightarrow> layer < int (length m) \<Longrightarrow> 0 \<le> neuron \<Longrightarrow>
   neuron < int (shape0 (c_fc (m ! nat layer))) \<Longrightarrow>
   \<exists>r. trace_from_neuron_fwd m top_k layer neuron d = Inr r"
proof (induction m top_k layer neuron d rule: trace_from_neuron_fwd.induct)
  case (1 m top_k layer neuron d)
  note wf = "1.prems"(1) and l = "1.prems"(2,3) and i = "1.prems"(4,5)
  show ?case
  proof (cases "d = 0 \<or> int (length m) - 1 \<le> layer")
    case True
    then show ?thesis by (simp add: fwd_terminal)
  next
    case False
    have "\<exists>kids. trace_from_neuron_fwd m top_k next_layer (neuron_id r) (d - 1) = Inr kids"
      if ch: "ch \<in> set (top_channels top_k (out_connections m (nat layer) (nat neuron)))"
        and n: "next_layer \<in> set [layer + 1 .. int (length m) - 1]"
        and r: "r \<in> set (readers_of m (nat next_layer) (nat (channel_id ch)) top_k)"
      for ch next_layer r
    proof -
      have nl: "0 \<le> next_layer" "next_layer < int (length m)" using n l by auto
      have ch': "ch \<in> set (slice_to top_k (sort_desc (\<lambda>x. \<bar>ch_weight x\<bar>)
                   (conn_out \<lparr>conn_in = in_connections m (nat layer) (nat neuron),
                             conn_out = out_connections m (nat layer) (nat neuron)\<rparr>)))"
        using ch by (simp add: top_channels_def)
      from readers_of_range [OF r]
      have ri: "0 \<le> neuron_id r" "neuron_id r < int (shape0 (c_fc (m ! nat next_layer)))"
        by simp_all
      show ?thesis
        by (rule "1.IH" [OF False connections_in_range [OF wf l i] refl ch' n
              readers_of_channel [OF wf l ch nl] r wf nl ri])
    qed
    from fwd_candidates_pure [OF wf l i this]
    show ?thesis using False by (simp add: trace_from_neuron_fwd_unfold)
  qed
qed

lemma bwd_succeeds:
  "wf_model m \<Longrightarrow> 0 \<le> layer \<Longrightarrow> layer < int (length m) \<Longrightarrow> 0 \<le> neuron \<Longrightarrow>
   neuron < int (shape0 (c_fc (m ! nat layer))) \<Longrightarrow>
   \<exists>r. trace_from_neuron_bwd m top_k layer neuron d = Inr r"
proof (induction m top_k layer neuron d rule: trace_from_neuron_bwd.induct)
  case (1 m top_k layer neuron d)
  note wf = "1.prems"(1) and l = "1.prems"(2,3) and i = "1.prems"(4,5)
  show ?case
  proof (cases "d = 0 \<or> layer \<le> 0")
    case True
    then show ?thesis by (simp add: bwd_terminal)
  next
    case False
    have "\<exists>kids. trace_from_neuron_bwd m top_k prev_layer (neuron_id r) (d - 1) = Inr kids"
      if ch: "ch \<in> set (top_channels top_k (in_connections m (nat layer) (nat neuron)))"
        and n: "prev_layer \<in> set (rev [0 .. layer - 1])"
        and r: "r \<in> set (writers_of m (nat prev_layer) (nat (channel_id ch)) top_k)"
      for ch prev_layer r
    proof -
      have nl: "0 \<le> prev_layer" "prev_layer < int (length m)" using n l by auto
      have ch': "ch \<in> set (slice_to top_k (sort_desc (\<lambda>x. \<bar>ch_weight x\<bar>)
                   (conn_in \<lparr>conn_in = in_connections m (nat layer) (nat neuron),
                            conn_out = out_connections m (nat layer) (nat neuron)\<rparr>)))"
        using ch by (simp add: top_channels_def)
      have "nat prev_layer < length m" using nl by simp
      from writers_of_range [OF r] wf_model_nth [OF wf this]
      have ri: "0 \<le> neuron_id r" "neuron_id r < int (shape0 (c_fc (m ! nat prev_layer)))"
        by simp_all
      show ?thesis
        by (rule "1.IH" [OF False connections_in_range [OF wf l i] refl ch' n
              writers_of_channel [OF wf l ch nl] r wf nl ri])
    qed
    from bwd_candidates_pure [OF wf l i this]
    show ?thesis using False by (simp add: trace_from_neuron_bwd_unfold)
  qed
qed

text \<open>
  C2. On a model of the guaranteed shapes, for a layer and a neuron in range, the
  candidate list of a forward expansion is, in this order: for each of the top \<open>top_k\<close>
  out-connections of the neuron by absolute weight, for each later layer in increasing
  order, for each reader that \<^verbatim>\<open>find_neurons_reading_channel\<close> returns for that layer,
  channel and \<open>top_k\<close>, the entry with that layer, the reader's neuron and weight, the
  channel, the write weight, and as \<open>children\<close> what the recursive call with
  \<open>depth - 1\<close> returns. The backward expansion is the mirror image over the
  in-connections, the earlier layers in decreasing order and
  \<^verbatim>\<open>find_neurons_writing_channel\<close>, with the field \<open>parents\<close>. A node that is not
  terminal returns that list re-ranked.
\<close>

theorem candidates_as_specified:
  fixes m :: "'w::{zero,abs,times,linorder} layers"
  assumes "wf_model m" "0 \<le> layer" "layer < int (length m)"
    "0 \<le> neuron" "neuron < int (shape0 (c_fc (m ! nat layer)))"
  shows
  "fwd_candidates m top_k layer neuron depth =
     Inr (spec_fwd_candidates m top_k layer neuron depth) \<and>
   bwd_candidates m top_k layer neuron depth =
     Inr (spec_bwd_candidates m top_k layer neuron depth) \<and>
   (depth \<noteq> 0 \<and> layer < int (length m) - 1 \<longrightarrow>
      trace_from_neuron_fwd m top_k layer neuron depth =
        Inr (rerank fwd_score top_k (spec_fwd_candidates m top_k layer neuron depth))) \<and>
   (depth \<noteq> 0 \<and> 0 < layer \<longrightarrow>
      trace_from_neuron_bwd m top_k layer neuron depth =
        Inr (rerank bwd_score top_k (spec_bwd_candidates m top_k layer neuron depth))) \<and>
   neuron_get_connected_reschannels m layer neuron =
     Inr \<lparr>conn_in = in_connections m (nat layer) (nat neuron),
          conn_out = out_connections m (nat layer) (nat neuron)\<rparr> \<and>
   (0 \<le> top_k \<longrightarrow>
      top_channels top_k (out_connections m (nat layer) (nat neuron)) =
        take (nat top_k)
          (sort_desc (\<lambda>x. \<bar>ch_weight x\<bar>) (out_connections m (nat layer) (nat neuron))) \<and>
      top_channels top_k (in_connections m (nat layer) (nat neuron)) =
        take (nat top_k)
          (sort_desc (\<lambda>x. \<bar>ch_weight x\<bar>) (in_connections m (nat layer) (nat neuron)))) \<and>
   (\<forall>ch\<in>set (top_channels top_k (out_connections m (nat layer) (nat neuron))).
      \<forall>next_layer\<in>set [layer + 1 .. int (length m) - 1].
        find_neurons_reading_channel m next_layer (channel_id ch) top_k =
          Inr (readers_of m (nat next_layer) (nat (channel_id ch)) top_k) \<and>
        (\<forall>r\<in>set (readers_of m (nat next_layer) (nat (channel_id ch)) top_k).
           trace_from_neuron_fwd m top_k next_layer (neuron_id r) (depth - 1) =
             Inr (fwd_subtree m top_k next_layer (neuron_id r) (depth - 1)))) \<and>
   (\<forall>ch\<in>set (top_channels top_k (in_connections m (nat layer) (nat neuron))).
      \<forall>prev_layer\<in>set (rev [0 .. layer - 1]).
        find_neurons_writing_channel m prev_layer (channel_id ch) top_k =
          Inr (writers_of m (nat prev_layer) (nat (channel_id ch)) top_k) \<and>
        (\<forall>w\<in>set (writers_of m (nat prev_layer) (nat (channel_id ch)) top_k).
           trace_from_neuron_bwd m top_k prev_layer (neuron_id w) (depth - 1) =
             Inr (bwd_subtree m top_k prev_layer (neuron_id w) (depth - 1))))"
proof -
  note wf = assms(1) and l = assms(2,3) and i = assms(4,5)
  have fr: "find_neurons_reading_channel m next_layer (channel_id ch) top_k =
              Inr (readers_of m (nat next_layer) (nat (channel_id ch)) top_k) \<and>
            (\<forall>r\<in>set (readers_of m (nat next_layer) (nat (channel_id ch)) top_k).
               trace_from_neuron_fwd m top_k next_layer (neuron_id r) (depth - 1) =
                 Inr (fwd_subtree m top_k next_layer (neuron_id r) (depth - 1)))"
    if ch: "ch \<in> set (top_channels top_k (out_connections m (nat layer) (nat neuron)))"
      and n: "next_layer \<in> set [layer + 1 .. int (length m) - 1]" for ch next_layer
  proof -
    have nl: "0 \<le> next_layer" "next_layer < int (length m)" using n l by auto
    have "trace_from_neuron_fwd m top_k next_layer (neuron_id r) (depth - 1) =
            Inr (fwd_subtree m top_k next_layer (neuron_id r) (depth - 1))"
      if r: "r \<in> set (readers_of m (nat next_layer) (nat (channel_id ch)) top_k)" for r
    proof -
      from readers_of_range [OF r]
      have "0 \<le> neuron_id r" "neuron_id r < int (shape0 (c_fc (m ! nat next_layer)))"
        by simp_all
      from fwd_succeeds [OF wf nl this, of top_k "depth - 1"] show ?thesis
        by (auto simp: fwd_subtree_def)
    qed
    with readers_of_channel [OF wf l ch nl] show ?thesis by blast
  qed
  have bw: "find_neurons_writing_channel m prev_layer (channel_id ch) top_k =
              Inr (writers_of m (nat prev_layer) (nat (channel_id ch)) top_k) \<and>
            (\<forall>w\<in>set (writers_of m (nat prev_layer) (nat (channel_id ch)) top_k).
               trace_from_neuron_bwd m top_k prev_layer (neuron_id w) (depth - 1) =
                 Inr (bwd_subtree m top_k prev_layer (neuron_id w) (depth - 1)))"
    if ch: "ch \<in> set (top_channels top_k (in_connections m (nat layer) (nat neuron)))"
      and n: "prev_layer \<in> set (rev [0 .. layer - 1])" for ch prev_layer
  proof -
    have nl: "0 \<le> prev_layer" "prev_layer < int (length m)" using n l by auto
    then have pl: "nat prev_layer < length m" by simp
    have "trace_from_neuron_bwd m top_k prev_layer (neuron_id w) (depth - 1) =
            Inr (bwd_subtree m top_k prev_layer (neuron_id w) (depth - 1))"
      if w: "w \<in> set (writers_of m (nat prev_layer) (nat (channel_id ch)) top_k)" for w
    proof -
      from writers_of_range [OF w] wf_model_nth [OF wf pl]
      have "0 \<le> neuron_id w" "neuron_id w < int (shape0 (c_fc (m ! nat prev_layer)))"
        by simp_all
      from bwd_succeeds [OF wf nl this, of top_k "depth - 1"] show ?thesis
        by (auto simp: bwd_subtree_def)
    qed
    with writers_of_channel [OF wf l ch nl] show ?thesis by blast
  qed
  have fc: "fwd_candidates m top_k layer neuron depth =
              Inr (spec_fwd_candidates m top_k layer neuron depth)"
    by (rule fwd_candidates_pure [OF wf l i]) (use fr in blast)
  have bc: "bwd_candidates m top_k layer neuron depth =
              Inr (spec_bwd_candidates m top_k layer neuron depth)"
    by (rule bwd_candidates_pure [OF wf l i]) (use bw in blast)
  have ft: "trace_from_neuron_fwd m top_k layer neuron depth =
        Inr (rerank fwd_score top_k (spec_fwd_candidates m top_k layer neuron depth))"
    if "depth \<noteq> 0 \<and> layer < int (length m) - 1"
    using that fc by (simp add: trace_from_neuron_fwd_unfold)
  have bt: "trace_from_neuron_bwd m top_k layer neuron depth =
        Inr (rerank bwd_score top_k (spec_bwd_candidates m top_k layer neuron depth))"
    if "depth \<noteq> 0 \<and> 0 < layer"
    using that bc by (simp add: trace_from_neuron_bwd_unfold)
  have tk: "top_channels top_k cs = take (nat top_k) (sort_desc (\<lambda>x. \<bar>ch_weight x\<bar>) cs)"
    if "0 \<le> top_k" for cs :: "'w channel_entry list"
    using that by (simp add: top_channels_def slice_to_nonneg)
  show ?thesis
    using fc bc ft bt connections_in_range [OF wf l i] tk fr bw by blast
qed

text \<open>The theorem at neuron \<open>1\<close> of layer \<open>1\<close> of the four-layer model, \<open>top_k = 2\<close>.\<close>

theorem candidates_as_specified_witness:
  "wf_model example_layers \<and> (0::int) \<le> 1 \<and> (1::int) < int (length example_layers) \<and>
   (1::int) < int (shape0 (c_fc (example_layers ! nat 1))) \<and>
   spec_fwd_candidates example_layers 2 1 1 2 =
     [FwdNode 2 0 3 0 2 None,
      FwdNode 2 1 (- 3) 0 2 (Some [FwdNode 3 0 3 0 2 None, FwdNode 3 1 (- 3) 0 2 None]),
      FwdNode 3 0 3 0 2 None, FwdNode 3 1 (- 3) 0 2 None] \<and>
   spec_bwd_candidates example_layers 2 1 1 2 =
     [BwdNode 0 2 (- 5) 0 (- 3) None, BwdNode 0 1 2 0 (- 3) None]"
proof -
  have wf: "wf_model example_layers"
    by (simp add: wf_model_def d_model_def wf_layer_def example_layers_def example_layer_def)
  have l: "(0::int) \<le> 1" "(1::int) < int (length example_layers)"
    by (simp_all add: example_layers_def)
  have i: "(1::int) < int (shape0 (c_fc (example_layers ! nat 1)))"
    by (simp add: example_layers_def example_layer_def)
  have f: "fwd_candidates example_layers 2 1 1 2 =
     Inr [FwdNode 2 0 3 0 2 None,
      FwdNode 2 1 (- 3) 0 2 (Some [FwdNode 3 0 3 0 2 None, FwdNode 3 1 (- 3) 0 2 None]),
      FwdNode 3 0 3 0 2 None, FwdNode 3 1 (- 3) 0 2 None]"
    by code_simp
  have b: "bwd_candidates example_layers 2 1 1 2 =
     Inr [BwdNode 0 2 (- 5) 0 (- 3) None, BwdNode 0 1 2 0 (- 3) None]"
    by code_simp
  note t = candidates_as_specified [OF wf l l(1) i, of 2 2]
  from t have "fwd_candidates example_layers 2 1 1 2 =
      Inr (spec_fwd_candidates example_layers 2 1 1 2)"
    by (rule conjunct1)
  then have sf: "spec_fwd_candidates example_layers 2 1 1 2 =
     [FwdNode 2 0 3 0 2 None,
      FwdNode 2 1 (- 3) 0 2 (Some [FwdNode 3 0 3 0 2 None, FwdNode 3 1 (- 3) 0 2 None]),
      FwdNode 3 0 3 0 2 None, FwdNode 3 1 (- 3) 0 2 None]"
    unfolding f by simp
  from t have "bwd_candidates example_layers 2 1 1 2 =
      Inr (spec_bwd_candidates example_layers 2 1 1 2)"
    by blast
  then have sb: "spec_bwd_candidates example_layers 2 1 1 2 =
     [BwdNode 0 2 (- 5) 0 (- 3) None, BwdNode 0 1 2 0 (- 3) None]"
    unfolding b by simp
  show ?thesis
    by (intro conjI) (fact wf l i sf sb)+
qed

lemma get_neuron_connections_layer:
  "layer < 0 \<or> int (length m) \<le> layer \<Longrightarrow>
   get_neuron_connections m layer neuron trace_depth trace_k =
     Inl (HTTPException 400 (''Layer must be between 0 and '' @ str_int (int (length m) - 1)))"
  by (auto simp: get_neuron_connections_def Let_def)

lemma get_neuron_connections_neuron:
  "0 \<le> layer \<Longrightarrow> layer < int (length m) \<Longrightarrow>
   neuron < 0 \<or> int (shape0 (c_fc (m ! nat layer))) \<le> neuron \<Longrightarrow>
   get_neuron_connections m layer neuron trace_depth trace_k =
     Inl (HTTPException 400
            (''Neuron index must be between 0 and '' @
             str_int (int (shape0 (c_fc (m ! nat layer))) - 1)))"
  by (auto simp: get_neuron_connections_def Let_def)

lemma get_neuron_connections_valid:
  "0 \<le> layer \<Longrightarrow> layer < int (length m) \<Longrightarrow>
   0 \<le> neuron \<Longrightarrow> neuron < int (shape0 (c_fc (m ! nat layer))) \<Longrightarrow>
   get_neuron_connections m layer neuron trace_depth trace_k =
     bind_result (trace_circuit_forward m layer neuron trace_depth trace_k) (\<lambda>fwd.
     bind_result (trace_circuit_backward m layer neuron trace_depth trace_k) (\<lambda>bwd.
     Inr \<lparr>nr_layer = layer, nr_neuron = neuron,
          trace_forward = fwd, trace_backward = bwd\<rparr>))"
  by (auto simp: get_neuron_connections_def Let_def)

lemma trace_circuit_errors:
  "trace_circuit_forward m layer neuron d k = Inl e \<Longrightarrow> e = IndexError"
  "trace_circuit_backward m layer neuron d k = Inl e \<Longrightarrow> e = IndexError"
  by (auto simp: trace_circuit_forward_def trace_circuit_backward_def bind_result_eq_Inl
      dest: fwd_error bwd_error)

text \<open>
  C7. The route answers with \<open>HTTPException 400\<close> exactly when the layer is outside
  \<open>[0, num_layers)\<close> or the neuron is outside \<open>[0, mlp_size)\<close> of that layer; the detail
  names the valid range, and the answer is fixed by the two tests, before either
  tracer is called. Otherwise, on a model of the guaranteed shapes, both tracers
  return and the response holds the layer, the neuron and their two results.
\<close>

theorem neuron_route:
  fixes m :: "'w::{zero,abs,times,linorder} layers"
  shows
  "(layer < 0 \<or> int (length m) \<le> layer \<longrightarrow>
      get_neuron_connections m layer neuron trace_depth trace_k =
        Inl (HTTPException 400
               (''Layer must be between 0 and '' @ str_int (int (length m) - 1)))) \<and>
   (0 \<le> layer \<and> layer < int (length m) \<and>
    (neuron < 0 \<or> int (shape0 (c_fc (m ! nat layer))) \<le> neuron) \<longrightarrow>
      get_neuron_connections m layer neuron trace_depth trace_k =
        Inl (HTTPException 400
               (''Neuron index must be between 0 and '' @
                str_int (int (shape0 (c_fc (m ! nat layer))) - 1)))) \<and>
   ((\<exists>status detail. get_neuron_connections m layer neuron trace_depth trace_k =
        Inl (HTTPException status detail)) \<longleftrightarrow>
    (layer < 0 \<or> int (length m) \<le> layer \<or> neuron < 0 \<or>
     int (shape0 (c_fc (m ! nat layer))) \<le> neuron)) \<and>
   (wf_model m \<and> 0 \<le> layer \<and> layer < int (length m) \<and> 0 \<le> neuron \<and>
    neuron < int (shape0 (c_fc (m ! nat layer))) \<longrightarrow>
      (\<exists>fwd bwd.
         trace_circuit_forward m layer neuron trace_depth trace_k = Inr fwd \<and>
         trace_circuit_backward m layer neuron trace_depth trace_k = Inr bwd \<and>
         get_neuron_connections m layer neuron trace_depth trace_k =
           Inr \<lparr>nr_layer = layer, nr_neuron = neuron,
                trace_forward = fwd, trace_backward = bwd\<rparr>))"
proof -
  let ?valid = "0 \<le> layer \<and> layer < int (length m) \<and> 0 \<le> neuron \<and>
    neuron < int (shape0 (c_fc (m ! nat layer)))"
  have no_http: "get_neuron_connections m layer neuron trace_depth trace_k \<noteq>
      Inl (HTTPException status detail)" if v: ?valid for status detail
  proof
    assume "get_neuron_connections m layer neuron trace_depth trace_k =
      Inl (HTTPException status detail)"
    then have "trace_circuit_forward m layer neuron trace_depth trace_k =
        Inl (HTTPException status detail) \<or>
      trace_circuit_backward m layer neuron trace_depth trace_k =
        Inl (HTTPException status detail)"
      using v by (auto simp: get_neuron_connections_valid bind_result_eq_Inl)
    then show False using trace_circuit_errors [of m layer neuron trace_depth trace_k] by auto
  qed
  have ok: "\<exists>fwd bwd.
         trace_circuit_forward m layer neuron trace_depth trace_k = Inr fwd \<and>
         trace_circuit_backward m layer neuron trace_depth trace_k = Inr bwd \<and>
         get_neuron_connections m layer neuron trace_depth trace_k =
           Inr \<lparr>nr_layer = layer, nr_neuron = neuron,
                trace_forward = fwd, trace_backward = bwd\<rparr>"
    if wf: "wf_model m" and v: ?valid
  proof -
    from v have l: "0 \<le> layer" "layer < int (length m)"
      and i: "0 \<le> neuron" "neuron < int (shape0 (c_fc (m ! nat layer)))"
      by simp_all
    from fwd_succeeds [OF wf l i, of trace_k trace_depth] obtain rf where
      "trace_from_neuron_fwd m trace_k layer neuron trace_depth = Inr rf" by blast
    then have f: "trace_circuit_forward m layer neuron trace_depth trace_k = Inr (or_empty rf)"
      by (simp add: trace_circuit_forward_def)
    from bwd_succeeds [OF wf l i, of trace_k trace_depth] obtain rb where
      "trace_from_neuron_bwd m trace_k layer neuron trace_depth = Inr rb" by blast
    then have b: "trace_circuit_backward m layer neuron trace_depth trace_k = Inr (or_empty rb)"
      by (simp add: trace_circuit_backward_def)
    show ?thesis
      using f b l i by (simp add: get_neuron_connections_valid)
  qed
  have a1: "layer < 0 \<or> int (length m) \<le> layer \<longrightarrow>
      get_neuron_connections m layer neuron trace_depth trace_k =
        Inl (HTTPException 400
               (''Layer must be between 0 and '' @ str_int (int (length m) - 1)))"
    using get_neuron_connections_layer [of layer m neuron trace_depth trace_k] by blast
  have a2: "0 \<le> layer \<and> layer < int (length m) \<and>
    (neuron < 0 \<or> int (shape0 (c_fc (m ! nat layer))) \<le> neuron) \<longrightarrow>
      get_neuron_connections m layer neuron trace_depth trace_k =
        Inl (HTTPException 400
               (''Neuron index must be between 0 and '' @
                str_int (int (shape0 (c_fc (m ! nat layer))) - 1)))"
    using get_neuron_connections_neuron [of layer m neuron trace_depth trace_k] by blast
  have a3: "(\<exists>status detail. get_neuron_connections m layer neuron trace_depth trace_k =
        Inl (HTTPException status detail)) \<longleftrightarrow>
    (layer < 0 \<or> int (length m) \<le> layer \<or> neuron < 0 \<or>
     int (shape0 (c_fc (m ! nat layer))) \<le> neuron)"
  proof (cases ?valid)
    case True
    then show ?thesis using no_http by auto
  next
    case False
    then consider "layer < 0 \<or> int (length m) \<le> layer"
      | "0 \<le> layer \<and> layer < int (length m) \<and>
         (neuron < 0 \<or> int (shape0 (c_fc (m ! nat layer))) \<le> neuron)"
      by linarith
    then show ?thesis
    proof cases
      case 1
      with a1 show ?thesis by auto
    next
      case 2
      with a2 show ?thesis by auto
    qed
  qed
  show ?thesis
    using a1 a2 a3 ok by blast
qed

text \<open>
  The theorem on the four-layer model: layer \<open>7\<close>, neuron \<open>4\<close> of layer \<open>0\<close>, and the valid
  neuron \<open>1\<close> of layer \<open>1\<close>.
\<close>

theorem neuron_route_witness:
  "int (length example_layers) \<le> 7 \<and>
   get_neuron_connections example_layers 7 0 2 2 =
     Inl (HTTPException 400 ''Layer must be between 0 and 3'') \<and>
   int (shape0 (c_fc (example_layers ! nat 0))) \<le> 4 \<and>
   get_neuron_connections example_layers 0 4 2 2 =
     Inl (HTTPException 400 ''Neuron index must be between 0 and 3'') \<and>
   wf_model example_layers \<and> (1::int) < int (length example_layers) \<and>
   (1::int) < int (shape0 (c_fc (example_layers ! nat 1))) \<and>
   get_neuron_connections example_layers 1 1 2 2 =
     Inr \<lparr>nr_layer = 1, nr_neuron = 1,
          trace_forward =
            [FwdNode 2 0 3 0 2 None,
             FwdNode 2 1 (- 3) 0 2
               (Some [FwdNode 3 0 3 0 2 None, FwdNode 3 1 (- 3) 0 2 None]),
             FwdNode 3 0 3 0 2 None, FwdNode 3 1 (- 3) 0 2 None],
          trace_backward =
            [BwdNode 0 2 (- 5) 0 (- 3) None, BwdNode 0 1 2 0 (- 3) None]\<rparr>"
proof -
  have n: "int (length example_layers) \<le> 7" "(1::int) < int (length example_layers)"
    "(0::int) < int (length example_layers)"
    by (simp_all add: example_layers_def)
  have s: "int (shape0 (c_fc (example_layers ! nat 0))) \<le> 4"
    "(1::int) < int (shape0 (c_fc (example_layers ! nat 1)))"
    by (simp_all add: example_layers_def example_layer_def)
  have wf: "wf_model example_layers"
    by (simp add: wf_model_def d_model_def wf_layer_def example_layers_def example_layer_def)
  have d1: "''Layer must be between 0 and '' @ str_int (int (length example_layers) - 1) =
            ''Layer must be between 0 and 3''"
    by code_simp
  have d2: "''Neuron index must be between 0 and '' @
              str_int (int (shape0 (c_fc (example_layers ! nat 0))) - 1) =
            ''Neuron index must be between 0 and 3''"
    by code_simp
  have f: "trace_circuit_forward example_layers 1 1 2 2 =
      Inr [FwdNode 2 0 3 0 2 None,
           FwdNode 2 1 (- 3) 0 2
             (Some [FwdNode 3 0 3 0 2 None, FwdNode 3 1 (- 3) 0 2 None]),
           FwdNode 3 0 3 0 2 None, FwdNode 3 1 (- 3) 0 2 None]"
    by code_simp
  have b: "trace_circuit_backward example_layers 1 1 2 2 =
      Inr [BwdNode 0 2 (- 5) 0 (- 3) None, BwdNode 0 1 2 0 (- 3) None]"
    by code_simp
  from neuron_route [where m = example_layers and layer = 7 and neuron = 0
      and trace_depth = 2 and trace_k = 2] n(1)
  have e1: "get_neuron_connections example_layers 7 0 2 2 =
     Inl (HTTPException 400 ''Layer must be between 0 and 3'')"
    unfolding d1 by blast
  from neuron_route [where m = example_layers and layer = 0 and neuron = 4
      and trace_depth = 2 and trace_k = 2] n(3) s(1)
  have e2: "get_neuron_connections example_layers 0 4 2 2 =
     Inl (HTTPException 400 ''Neuron index must be between 0 and 3'')"
    unfolding d2 by simp
  from neuron_route [where m = example_layers and layer = 1 and neuron = 1
      and trace_depth = 2 and trace_k = 2] wf n(2) s(2)
  have r: "get_neuron_connections example_layers 1 1 2 2 =
     Inr \<lparr>nr_layer = 1, nr_neuron = 1,
          trace_forward =
            [FwdNode 2 0 3 0 2 None,
             FwdNode 2 1 (- 3) 0 2
               (Some [FwdNode 3 0 3 0 2 None, FwdNode 3 1 (- 3) 0 2 None]),
             FwdNode 3 0 3 0 2 None, FwdNode 3 1 (- 3) 0 2 None],
          trace_backward =
            [BwdNode 0 2 (- 5) 0 (- 3) None, BwdNode 0 1 2 0 (- 3) None]\<rparr>"
    unfolding f b by simp
  show ?thesis
    by (intro conjI) (fact n s wf e1 e2 r)+
qed

lemma channel_loop_result:
  assumes "\<And>l. l \<in> set ls \<Longrightarrow>
             find_neurons_reading_channel m l c k = Inr (R l) \<and>
             find_neurons_writing_channel m l c k = Inr (W l)"
  shows "channel_loop m c k ls (rb, wb) =
           Inr (\<lambda>l. if l \<in> set ls \<and> R l \<noteq> [] then Some (R l) else rb l,
                \<lambda>l. if l \<in> set ls \<and> W l \<noteq> [] then Some (W l) else wb l)"
  using assms
proof (induction ls arbitrary: rb wb)
  case Nil
  then show ?case by simp
next
  case (Cons a ls)
  have a: "find_neurons_reading_channel m a c k = Inr (R a)"
    "find_neurons_writing_channel m a c k = Inr (W a)"
    using Cons.prems [of a] by simp_all
  have rest: "\<And>l. l \<in> set ls \<Longrightarrow>
             find_neurons_reading_channel m l c k = Inr (R l) \<and>
             find_neurons_writing_channel m l c k = Inr (W l)"
    using Cons.prems by simp
  let ?rb = "if R a \<noteq> [] then rb(a \<mapsto> R a) else rb"
  let ?wb = "if W a \<noteq> [] then wb(a \<mapsto> W a) else wb"
  have "channel_loop m c k (a # ls) (rb, wb) = channel_loop m c k ls (?rb, ?wb)"
    by (simp add: a)
  also have "\<dots> =
      Inr (\<lambda>l. if l \<in> set ls \<and> R l \<noteq> [] then Some (R l) else ?rb l,
           \<lambda>l. if l \<in> set ls \<and> W l \<noteq> [] then Some (W l) else ?wb l)"
    by (rule Cons.IH [OF rest])
  also have "\<dots> =
      Inr (\<lambda>l. if l \<in> set (a # ls) \<and> R l \<noteq> [] then Some (R l) else rb l,
           \<lambda>l. if l \<in> set (a # ls) \<and> W l \<noteq> [] then Some (W l) else wb l)"
    by (auto simp: fun_eq_iff)
  finally show ?case .
qed

lemma d_model_nth: "m \<noteq> [] \<Longrightarrow> d_model m = shape0 (c_proj (m ! 0))"
  by (cases m) (simp_all add: d_model_def)

lemma get_channel_connections_invalid:
  "m \<noteq> [] \<Longrightarrow> channel < 0 \<or> int (d_model m) \<le> channel \<Longrightarrow>
   get_channel_connections m channel top_k =
     Inl (HTTPException 400
            (''Channel must be between 0 and '' @ str_int (int (d_model m) - 1)))"
  by (auto simp: get_channel_connections_def getitem_in_range d_model_nth Let_def)

lemma channel_extractors:
  assumes "wf_model m" "0 \<le> channel" "channel < int (d_model m)"
    "0 \<le> l" "l < int (length m)"
  shows "find_neurons_reading_channel m l channel top_k =
           Inr (readers_of m (nat l) (nat channel) top_k)"
    "find_neurons_writing_channel m l channel top_k =
           Inr (writers_of m (nat l) (nat channel) top_k)"
proof -
  have "nat l < length m" using assms(4,5) by simp
  note s = wf_model_nth [OF assms(1) this]
  show "find_neurons_reading_channel m l channel top_k =
           Inr (readers_of m (nat l) (nat channel) top_k)"
    using assms s by (simp add: readers_in_range readers_of_def)
  show "find_neurons_writing_channel m l channel top_k =
           Inr (writers_of m (nat l) (nat channel) top_k)"
    using assms s by (simp add: writers_in_range writers_of_def)
qed

lemma get_channel_connections_valid:
  assumes "wf_model m" "m \<noteq> []" "0 \<le> channel" "channel < int (d_model m)"
  shows "get_channel_connections m channel top_k =
     Inr \<lparr>cr_channel_id = channel,
          readers_by_layer =
            (\<lambda>l. if l \<in> set [0 .. int (length m) - 1] \<and>
                     readers_of m (nat l) (nat channel) top_k \<noteq> []
                  then Some (readers_of m (nat l) (nat channel) top_k) else None),
          writers_by_layer =
            (\<lambda>l. if l \<in> set [0 .. int (length m) - 1] \<and>
                     writers_of m (nat l) (nat channel) top_k \<noteq> []
                  then Some (writers_of m (nat l) (nat channel) top_k) else None)\<rparr>"
proof -
  have loop: "channel_loop m channel top_k [0 .. int (length m) - 1] (Map.empty, Map.empty) =
      Inr (\<lambda>l. if l \<in> set [0 .. int (length m) - 1] \<and>
                     readers_of m (nat l) (nat channel) top_k \<noteq> []
                  then Some (readers_of m (nat l) (nat channel) top_k) else None,
           \<lambda>l. if l \<in> set [0 .. int (length m) - 1] \<and>
                     writers_of m (nat l) (nat channel) top_k \<noteq> []
                  then Some (writers_of m (nat l) (nat channel) top_k) else None)"
    by (rule channel_loop_result) (use assms in \<open>auto intro: channel_extractors\<close>)
  have "\<not> (channel < 0 \<or> int (shape0 (c_proj (m ! nat 0))) \<le> channel)"
    using assms by (simp add: d_model_nth)
  then show ?thesis
    using assms(2)
    by (simp add: get_channel_connections_def getitem_in_range Let_def loop)
qed

lemma readers_of_zero:
  "\<forall>w\<in>set (fc_column m l c). w = 0 \<Longrightarrow> readers_of m l c k = []"
  using nonzero_neurons_Nil [of "fc_column m l c"]
  by (simp add: readers_of_def ranked_neurons_def slice_to_def)

lemma writers_of_zero:
  "\<forall>w\<in>set (proj_row m l c). w = 0 \<Longrightarrow> writers_of m l c k = []"
  using nonzero_neurons_Nil [of "proj_row m l c"]
  by (simp add: writers_of_def ranked_neurons_def slice_to_def)

text \<open>
  C8. On a model of the guaranteed shapes with at least one layer, for a channel in
  \<open>[0, d_model)\<close> the route returns the channel and two dictionaries in which a layer
  index is a key exactly when it is a layer of the model for which
  \<^verbatim>\<open>find_neurons_reading_channel\<close> (\<^verbatim>\<open>find_neurons_writing_channel\<close>) returns a non-empty
  list, and then the value is that list. A channel whose column of \<open>c_fc\<close> and row of
  \<open>c_proj\<close> are zero in every layer gives two empty dictionaries. A channel outside
  \<open>[0, d_model)\<close> gives \<open>HTTPException 400\<close> with the valid range in the detail.
\<close>

theorem channel_route:
  fixes m :: "'w::{zero,abs,linorder} layers"
  assumes "m \<noteq> []"
  shows
  "(channel < 0 \<or> int (d_model m) \<le> channel \<longrightarrow>
      get_channel_connections m channel top_k =
        Inl (HTTPException 400
               (''Channel must be between 0 and '' @ str_int (int (d_model m) - 1)))) \<and>
   (wf_model m \<and> 0 \<le> channel \<and> channel < int (d_model m) \<longrightarrow>
      (\<exists>resp. get_channel_connections m channel top_k = Inr resp \<and>
         cr_channel_id resp = channel \<and>
         (\<forall>l. (readers_by_layer resp l \<noteq> None \<longleftrightarrow>
                0 \<le> l \<and> l < int (length m) \<and>
                find_neurons_reading_channel m l channel top_k \<noteq> Inr []) \<and>
              (writers_by_layer resp l \<noteq> None \<longleftrightarrow>
                0 \<le> l \<and> l < int (length m) \<and>
                find_neurons_writing_channel m l channel top_k \<noteq> Inr [])) \<and>
         (\<forall>l rs. readers_by_layer resp l = Some rs \<longrightarrow>
                find_neurons_reading_channel m l channel top_k = Inr rs) \<and>
         (\<forall>l ws. writers_by_layer resp l = Some ws \<longrightarrow>
                find_neurons_writing_channel m l channel top_k = Inr ws) \<and>
         ((\<forall>l<length m. (\<forall>w\<in>set (fc_column m l (nat channel)). w = 0) \<and>
                         (\<forall>w\<in>set (proj_row m l (nat channel)). w = 0)) \<longrightarrow>
            readers_by_layer resp = Map.empty \<and> writers_by_layer resp = Map.empty)))"
proof (intro conjI impI)
  assume "channel < 0 \<or> int (d_model m) \<le> channel"
  then show "get_channel_connections m channel top_k =
        Inl (HTTPException 400
               (''Channel must be between 0 and '' @ str_int (int (d_model m) - 1)))"
    by (rule get_channel_connections_invalid [OF assms])
next
  assume a: "wf_model m \<and> 0 \<le> channel \<and> channel < int (d_model m)"
  then have wf: "wf_model m" and c: "0 \<le> channel" "channel < int (d_model m)"
    by simp_all
  let ?R = "\<lambda>l. readers_of m (nat l) (nat channel) top_k"
  let ?W = "\<lambda>l. writers_of m (nat l) (nat channel) top_k"
  let ?resp = "\<lparr>cr_channel_id = channel,
          readers_by_layer =
            (\<lambda>l. if l \<in> set [0 .. int (length m) - 1] \<and> ?R l \<noteq> [] then Some (?R l) else None),
          writers_by_layer =
            (\<lambda>l. if l \<in> set [0 .. int (length m) - 1] \<and> ?W l \<noteq> [] then Some (?W l) else None)\<rparr>"
  have r: "get_channel_connections m channel top_k = Inr ?resp"
    by (rule get_channel_connections_valid [OF wf assms c])
  have e: "find_neurons_reading_channel m l channel top_k = Inr (?R l)"
    "find_neurons_writing_channel m l channel top_k = Inr (?W l)"
    if "0 \<le> l" "l < int (length m)" for l
    using channel_extractors [OF wf c that] by simp_all
  have k: "(readers_by_layer ?resp l \<noteq> None \<longleftrightarrow>
                0 \<le> l \<and> l < int (length m) \<and>
                find_neurons_reading_channel m l channel top_k \<noteq> Inr []) \<and>
           (writers_by_layer ?resp l \<noteq> None \<longleftrightarrow>
                0 \<le> l \<and> l < int (length m) \<and>
                find_neurons_writing_channel m l channel top_k \<noteq> Inr [])" for l
    using e [of l] by auto
  have vr: "find_neurons_reading_channel m l channel top_k = Inr rs"
    if "readers_by_layer ?resp l = Some rs" for l rs
    using that e(1) [of l] by (auto split: if_splits)
  have vw: "find_neurons_writing_channel m l channel top_k = Inr ws"
    if "writers_by_layer ?resp l = Some ws" for l ws
    using that e(2) [of l] by (auto split: if_splits)
  have z: "readers_by_layer ?resp = Map.empty \<and> writers_by_layer ?resp = Map.empty"
    if z: "\<forall>l<length m. (\<forall>w\<in>set (fc_column m l (nat channel)). w = 0) \<and>
                         (\<forall>w\<in>set (proj_row m l (nat channel)). w = 0)"
  proof -
    have "?R l = [] \<and> ?W l = []" if "l \<in> set [0 .. int (length m) - 1]" for l
    proof -
      have "nat l < length m" using that by auto
      with z show ?thesis by (simp add: readers_of_zero writers_of_zero)
    qed
    then show ?thesis by (auto simp: fun_eq_iff)
  qed
  show "\<exists>resp. get_channel_connections m channel top_k = Inr resp \<and>
         cr_channel_id resp = channel \<and>
         (\<forall>l. (readers_by_layer resp l \<noteq> None \<longleftrightarrow>
                0 \<le> l \<and> l < int (length m) \<and>
                find_neurons_reading_channel m l channel top_k \<noteq> Inr []) \<and>
              (writers_by_layer resp l \<noteq> None \<longleftrightarrow>
                0 \<le> l \<and> l < int (length m) \<and>
                find_neurons_writing_channel m l channel top_k \<noteq> Inr [])) \<and>
         (\<forall>l rs. readers_by_layer resp l = Some rs \<longrightarrow>
                find_neurons_reading_channel m l channel top_k = Inr rs) \<and>
         (\<forall>l ws. writers_by_layer resp l = Some ws \<longrightarrow>
                find_neurons_writing_channel m l channel top_k = Inr ws) \<and>
         ((\<forall>l<length m. (\<forall>w\<in>set (fc_column m l (nat channel)). w = 0) \<and>
                         (\<forall>w\<in>set (proj_row m l (nat channel)). w = 0)) \<longrightarrow>
            readers_by_layer resp = Map.empty \<and> writers_by_layer resp = Map.empty)"
    apply (rule exI [of _ ?resp])
    apply (intro conjI allI impI)
          apply (rule r)
         apply simp
        apply (rule k [THEN conjunct1])
       apply (rule k [THEN conjunct2])
      apply (erule vr)
     apply (erule vw)
     apply (drule z, simp)
    apply (drule z, simp)
    done
qed

text \<open>
  The theorem on the four-layer model, whose \<open>d_model\<close> is \<open>2\<close>: channel \<open>2\<close> is rejected,
  channel \<open>0\<close> has readers and writers in every layer, channel \<open>1\<close> has none.
\<close>

theorem channel_route_witness:
  "example_layers \<noteq> [] \<and> int (d_model example_layers) \<le> 2 \<and>
   get_channel_connections example_layers 2 2 =
     Inl (HTTPException 400 ''Channel must be between 0 and 1'') \<and>
   wf_model example_layers \<and> (1::int) < int (d_model example_layers) \<and>
   (\<exists>resp. get_channel_connections example_layers 0 2 = Inr resp \<and>
      cr_channel_id resp = 0 \<and>
      readers_by_layer resp 0 = Some [NeuronEntry 0 3, NeuronEntry 1 (- 3)] \<and>
      writers_by_layer resp 4 = None) \<and>
   (\<exists>resp. get_channel_connections example_layers 1 2 = Inr resp \<and>
      readers_by_layer resp = Map.empty \<and> writers_by_layer resp = Map.empty)"
proof -
  have ne: "example_layers \<noteq> []" by (simp add: example_layers_def)
  have dm: "int (d_model example_layers) \<le> 2" "(1::int) < int (d_model example_layers)"
    "(0::int) < int (d_model example_layers)"
    by (simp_all add: example_layers_def example_layer_def d_model_def)
  have wf: "wf_model example_layers"
    by (simp add: wf_model_def d_model_def wf_layer_def example_layers_def example_layer_def)
  have d: "''Channel must be between 0 and '' @ str_int (int (d_model example_layers) - 1) =
           ''Channel must be between 0 and 1''"
    by code_simp
  have f: "find_neurons_reading_channel example_layers 0 0 2 =
             Inr [NeuronEntry 0 3, NeuronEntry 1 (- 3)]"
    by code_simp
  have z: "\<forall>l<length example_layers.
             (\<forall>w\<in>set (fc_column example_layers l (nat 1)). w = 0) \<and>
             (\<forall>w\<in>set (proj_row example_layers l (nat 1)). w = 0)"
    by (auto simp: example_layers_def example_layer_def fc_column_def proj_row_def
        nth_Cons' less_Suc_eq numeral_nat)
  note t = channel_route [OF ne, where top_k = 2]
  from t [of 2] dm(1) have e: "get_channel_connections example_layers 2 2 =
     Inl (HTTPException 400 ''Channel must be between 0 and 1'')"
    unfolding d by simp
  from t [of 0] wf dm(3) obtain resp where
    r: "get_channel_connections example_layers 0 2 = Inr resp" "cr_channel_id resp = 0"
    and k: "\<forall>l. (readers_by_layer resp l \<noteq> None \<longleftrightarrow>
                0 \<le> l \<and> l < int (length example_layers) \<and>
                find_neurons_reading_channel example_layers l 0 2 \<noteq> Inr []) \<and>
              (writers_by_layer resp l \<noteq> None \<longleftrightarrow>
                0 \<le> l \<and> l < int (length example_layers) \<and>
                find_neurons_writing_channel example_layers l 0 2 \<noteq> Inr [])"
    and v: "\<forall>l rs. readers_by_layer resp l = Some rs \<longrightarrow>
                find_neurons_reading_channel example_layers l 0 2 = Inr rs"
    by auto
  have "(0::int) < int (length example_layers)"
    by (simp add: example_layers_def)
  with k f have "readers_by_layer resp 0 \<noteq> None"
    by auto
  then obtain rs where rs: "readers_by_layer resp 0 = Some rs" by blast
  with v f have r0: "readers_by_layer resp 0 = Some [NeuronEntry 0 3, NeuronEntry 1 (- 3)]"
    by auto
  have "\<not> (4::int) < int (length example_layers)"
    by (simp add: example_layers_def)
  with k have w4: "writers_by_layer resp 4 = None"
    by blast
  from t [of 1] wf dm(2) z obtain resp1 where
    r1: "get_channel_connections example_layers 1 2 = Inr resp1"
      "readers_by_layer resp1 = Map.empty" "writers_by_layer resp1 = Map.empty"
    by auto
  show ?thesis
    using ne dm(1,2) e wf r r0 w4 r1 by blast
qed

end
